theory Spec2Isabelle
  imports Complex_Main
begin

section \<open>Python strings\<close>

text \<open>
  Strings of the dashboard are modelled as lists of ASCII characters. The helpers below
  are the Python string methods that \<^verbatim>\<open>app.py\<close> calls, restricted to ASCII:
  \<^verbatim>\<open>str.strip()\<close>, \<^verbatim>\<open>str.upper()\<close>, \<^verbatim>\<open>sub in s\<close>, \<^verbatim>\<open>str.isalnum()\<close>, and the
  decimal rendering that \<^verbatim>\<open>str(n)\<close> and an f-string give for an integer.
\<close>

definition is_space :: "char \<Rightarrow> bool" where
  "is_space c = (let n = (of_char c :: nat) in (9 \<le> n \<and> n \<le> 13) \<or> (28 \<le> n \<and> n \<le> 32))"

definition strip :: "string \<Rightarrow> string" where
  "strip s = rev (dropWhile is_space (rev (dropWhile is_space s)))"

definition upper_char :: "char \<Rightarrow> char" where
  "upper_char c = (let n = (of_char c :: nat) in if 97 \<le> n \<and> n \<le> 122 then char_of (n - 32) else c)"

definition upper :: "string \<Rightarrow> string" where
  "upper s = map upper_char s"

fun starts_with :: "string \<Rightarrow> string \<Rightarrow> bool" where
  "starts_with [] s = True"
| "starts_with (p # ps) [] = False"
| "starts_with (p # ps) (c # cs) = (p = c \<and> starts_with ps cs)"

text \<open>\<^verbatim>\<open>sub in s\<close>: \<open>contains sub s\<close>.\<close>

fun contains :: "string \<Rightarrow> string \<Rightarrow> bool" where
  "contains sub [] = (sub = [])"
| "contains sub (c # cs) = (starts_with sub (c # cs) \<or> contains sub cs)"

definition isalnum :: "char \<Rightarrow> bool" where
  "isalnum c = (let n = (of_char c :: nat) in
     (48 \<le> n \<and> n \<le> 57) \<or> (65 \<le> n \<and> n \<le> 90) \<or> (97 \<le> n \<and> n \<le> 122))"

definition digit_char :: "nat \<Rightarrow> char" where
  "digit_char d = char_of (48 + d)"

function show_nat :: "nat \<Rightarrow> string" where
  "show_nat n = (if n < 10 then [digit_char n] else show_nat (n div 10) @ [digit_char (n mod 10)])"
  by pat_completeness auto
termination
  by (relation "measure (\<lambda>n. n)") auto

declare show_nat.simps [simp del]

definition show_int :: "int \<Rightarrow> string" where
  "show_int i = (if i < 0 then CHR ''-'' # show_nat (nat (- i)) else show_nat (nat i))"

section \<open>Cells and data frames\<close>

text \<open>
  A cell of a pandas table: a missing value (NaN), a text, a Python int or a bool.
  Float-typed columns are outside the model: a number in a cell is a Python int.
  A row maps column names to cells; a frame is its ordered column index and its rows.
\<close>

datatype cell = CNaN | CStr string | CInt int | CBool bool

type_synonym row = "string \<Rightarrow> cell"

record frame =
  columns :: "string list"
  rows :: "row list"

datatype error = HeaderNotFound | SheetNotFound | KeyError string | IndexError | ValueError
  | AttributeError | TypeError | JSONDecodeError

text \<open>\<^verbatim>\<open>str(x)\<close> and \<^verbatim>\<open>Series.astype(str)\<close> on one cell.\<close>

fun str_cell :: "cell \<Rightarrow> string" where
  "str_cell CNaN = ''nan''"
| "str_cell (CStr s) = s"
| "str_cell (CInt i) = show_int i"
| "str_cell (CBool b) = (if b then ''True'' else ''False'')"

text \<open>\<^verbatim>\<open>pd.isna(x)\<close>, \<^verbatim>\<open>Series.fillna(v)\<close> and Python's \<^verbatim>\<open>bool(x)\<close> on one cell.\<close>

fun isna :: "cell \<Rightarrow> bool" where
  "isna CNaN = True"
| "isna _ = False"

fun fillna :: "cell \<Rightarrow> cell \<Rightarrow> cell" where
  "fillna v CNaN = v"
| "fillna v c = c"

fun truthy :: "cell \<Rightarrow> bool" where
  "truthy CNaN = True"
| "truthy (CStr s) = (s \<noteq> [])"
| "truthy (CInt i) = (i \<noteq> 0)"
| "truthy (CBool b) = b"

definition empty_frame :: "frame \<Rightarrow> bool" where
  "empty_frame df = (columns df = [] \<or> rows df = [])"

text \<open>\<^verbatim>\<open>df[c] = f(row)\<close>: assign a column, appending it to the index when it is new.\<close>

definition set_column :: "string \<Rightarrow> (row \<Rightarrow> cell) \<Rightarrow> frame \<Rightarrow> frame" where
  "set_column c f df =
     \<lparr>columns = (if c \<in> set (columns df) then columns df else columns df @ [c]),
      rows = map (\<lambda>r. r(c := f r)) (rows df)\<rparr>"

text \<open>\<^verbatim>\<open>df.insert(loc, c, values)\<close>: raises when the column exists or \<open>loc\<close> is out of range.\<close>

definition insert_column :: "nat \<Rightarrow> string \<Rightarrow> (row \<Rightarrow> cell) \<Rightarrow> frame \<Rightarrow> error + frame" where
  "insert_column loc c f df =
     (if c \<in> set (columns df) then Inl ValueError
      else if length (columns df) < loc then Inl IndexError
      else Inr \<lparr>columns = take loc (columns df) @ [c] @ drop loc (columns df),
                rows = map (\<lambda>r. r(c := f r)) (rows df)\<rparr>)"

text \<open>\<^verbatim>\<open>df[cols]\<close>: project to the listed columns; a missing one raises KeyError.\<close>

definition restrict_row :: "string list \<Rightarrow> row \<Rightarrow> row" where
  "restrict_row cols r = (\<lambda>c. if c \<in> set cols then r c else CNaN)"

definition select_columns :: "string list \<Rightarrow> frame \<Rightarrow> error + frame" where
  "select_columns cols df =
     (case filter (\<lambda>c. c \<notin> set (columns df)) cols of
        [] \<Rightarrow> Inr \<lparr>columns = cols, rows = map (restrict_row cols) (rows df)\<rparr>
      | c # _ \<Rightarrow> Inl (KeyError c))"

text \<open>\<^verbatim>\<open>df.columns.get_loc(c)\<close> for a column that is present.\<close>

fun get_loc :: "string \<Rightarrow> string list \<Rightarrow> nat" where
  "get_loc c [] = 0"
| "get_loc c (x # xs) = (if x = c then 0 else Suc (get_loc c xs))"

text \<open>
  \<^verbatim>\<open>ensure_rowid\<close>: an empty table is returned as it is; otherwise a \<^verbatim>\<open>RowID\<close> column
  holding the positions 0, 1, ... is put in front unless the table has one.
\<close>

definition ensure_rowid :: "frame \<Rightarrow> frame" where
  "ensure_rowid df =
     (if empty_frame df then df
      else if ''RowID'' \<in> set (columns df) then df
      else \<lparr>columns = ''RowID'' # columns df,
            rows = map (\<lambda>(i, r). r(''RowID'' := CInt (int i))) (enumerate 0 (rows df))\<rparr>)"

section \<open>Workbook export\<close>

text \<open>
  The nested helper \<^verbatim>\<open>col_letter\<close> of the export functions:
  \<^verbatim>\<open>s=""; i=i0+1; while i: i, rem = divmod(i-1,26); s=chr(65+rem)+s; return s\<close>.
\<close>

function col_letter_loop :: "nat \<Rightarrow> string \<Rightarrow> string" where
  "col_letter_loop i s =
     (if i = 0 then s
      else col_letter_loop ((i - 1) div 26) (char_of (65 + (i - 1) mod 26) # s))"
  by pat_completeness auto
termination
  by (relation "measure (\<lambda>(i, s). i)") (auto simp: less_Suc_eq_le intro: le_less_trans)

declare col_letter_loop.simps [simp del]

definition col_letter :: "nat \<Rightarrow> string" where
  "col_letter i0 = col_letter_loop (i0 + 1) []"

text \<open>
  Standard spreadsheet lettering read backwards: the 1-based number of a column name,
  each letter a digit 1..26 (A = 1, Z = 26, AA = 27).
\<close>

definition col_number :: "string \<Rightarrow> nat" where
  "col_number s = foldl (\<lambda>acc c. acc * 26 + (of_char c - 64)) 0 s"

definition is_capital :: "char \<Rightarrow> bool" where
  "is_capital c = (65 \<le> (of_char c :: nat) \<and> (of_char c :: nat) \<le> 90)"

text \<open>What xlsxwriter is asked to put into a worksheet cell.\<close>

datatype xcell = XBlank | XStr string | XNum int | XBool bool | XFormula string

type_synonym worksheet = "nat \<times> nat \<Rightarrow> xcell option"

record workbook_sheet =
  sheet_name :: string
  cells :: worksheet

fun xcell_of :: "cell \<Rightarrow> xcell" where
  "xcell_of CNaN = XBlank"
| "xcell_of (CStr s) = XStr s"
| "xcell_of (CInt i) = XNum i"
| "xcell_of (CBool b) = XBool b"

text \<open>
  \<^verbatim>\<open>rdf.to_excel(writer, sheet_name=sheet, index=False)\<close>: the header in row 0, the data
  rows in rows 1..n (0-based).
\<close>

definition to_excel :: "frame \<Rightarrow> worksheet" where
  "to_excel df = (\<lambda>(r, c).
     if c < length (columns df) then
       (if r = 0 then Some (XStr (columns df ! c))
        else if r \<le> length (rows df) then Some (xcell_of ((rows df ! (r - 1)) (columns df ! c)))
        else None)
     else None)"

definition ws_write :: "nat \<Rightarrow> nat \<Rightarrow> xcell \<Rightarrow> worksheet \<Rightarrow> worksheet" where
  "ws_write r c v ws = ws((r, c) \<mapsto> v)"

definition safe_sheet_name :: "string \<Rightarrow> string" where
  "safe_sheet_name name = (let s = take 31 (filter isalnum name) in if s = [] then ''Sheet'' else s)"

definition export_cols :: "string list" where
  "export_cols = [''Delivery Route'', ''Client ID'', ''Client Name'', ''Address'', ''Phone'',
                  ''Meals'', ''Service Type'', ''Diet Type'', ''Delivered'']"

text \<open>\<^verbatim>\<open>rdf["Delivered"].map(lambda x: "X" if bool(x) else "")\<close> on one cell.\<close>

definition delivered_mark :: "cell \<Rightarrow> cell" where
  "delivered_mark x = (if truthy x then CStr ''X'' else CStr '''')"

definition countif_formula :: "string \<Rightarrow> nat \<Rightarrow> string" where
  "countif_formula L n = ''=COUNTIF('' @ L @ ''2:'' @ L @ show_nat (n + 1) @ '',\"X\")''"

definition sum_formula :: "string \<Rightarrow> nat \<Rightarrow> string" where
  "sum_formula L n = ''=SUM('' @ L @ ''2:'' @ L @ show_nat (n + 1) @ '')''"

text \<open>
  The rows of one route, projected to the export columns, with the delivered flag
  rendered for the sheet (lines 143-147 of \<^verbatim>\<open>to_excel_route_day\<close>).
\<close>

definition route_frame :: "frame \<Rightarrow> string \<Rightarrow> error + frame" where
  "route_frame df_day route_name =
     (let df = ensure_rowid df_day;
          cols = filter (\<lambda>c. c \<in> set (columns df)) export_cols
      in if ''Delivery Route'' \<notin> set (columns df) then Inl (KeyError ''Delivery Route'')
         else
           let rdf = \<lparr>columns = cols,
                      rows = map (restrict_row cols)
                               (filter (\<lambda>r. str_cell (r ''Delivery Route'') = route_name) (rows df))\<rparr>
           in Inr (if ''Delivered'' \<in> set (columns rdf)
                   then set_column ''Delivered'' (\<lambda>r. delivered_mark (r ''Delivered'')) rdf
                   else rdf))"

text \<open>The sheet written for a route table: data, TOTALS label and the two formulas.\<close>

definition write_totals :: "frame \<Rightarrow> worksheet \<Rightarrow> worksheet" where
  "write_totals rdf ws0 =
     (let n = length (rows rdf);
          ws1 = ws_write (n + 1) 0 (XStr ''TOTALS'') ws0;
          ws2 = (if ''Delivered'' \<in> set (columns rdf)
                 then let dcol = get_loc ''Delivered'' (columns rdf)
                      in ws_write (n + 1) dcol (XFormula (countif_formula (col_letter dcol) n)) ws1
                 else ws1)
      in if ''Meals'' \<in> set (columns rdf)
         then let mcol = get_loc ''Meals'' (columns rdf)
              in ws_write (n + 1) mcol (XFormula (sum_formula (col_letter mcol) n)) ws2
         else ws2)"

definition to_excel_route_day :: "frame \<Rightarrow> string \<Rightarrow> error + workbook_sheet" where
  "to_excel_route_day df_day route_name =
     (case route_frame df_day route_name of
        Inl e \<Rightarrow> Inl e
      | Inr rdf \<Rightarrow> Inr \<lparr>sheet_name = safe_sheet_name route_name,
                        cells = write_totals rdf (to_excel rdf)\<rparr>)"

section \<open>Reading a report\<close>

text \<open>
  An uploaded workbook maps sheet names to grids; a grid is what
  \<^verbatim>\<open>pd.read_excel(xls, sheet_name="Report", header=None)\<close> returns: rows of cells.
\<close>

type_synonym grid = "cell list list"

type_synonym xfile = "string \<Rightarrow> grid option"

definition EXPECTED_COLS :: "string list" where
  "EXPECTED_COLS = [''Delivery Route'', ''Client ID'', ''Last Name'', ''First Name'',
                    ''Address Line 1'', ''Address Line 2'', ''Building'',
                    ''Home Phone'', ''Mobile Phone'', ''Quantity'',
                    ''Service Type'', ''Diet Type'']"

text \<open>
  The header scan: \<^verbatim>\<open>for i in range(min(25, len(df0))):\<close>
  \<^verbatim>\<open>if str(df0.iloc[i, 0]).strip() == "Delivery Route": header_row_idx = i; break\<close>.
  \<open>find_header\<close> is run on the first 25 rows, counting from \<open>i\<close>; \<open>None\<close> is the
  source's \<^verbatim>\<open>header_row_idx is None\<close>. A row without a column 0 raises IndexError.
\<close>

fun find_header :: "grid \<Rightarrow> nat \<Rightarrow> error + nat option" where
  "find_header [] i = Inr None"
| "find_header ([] # rs) i = Inl IndexError"
| "find_header ((c # cs) # rs) i =
     (if strip (str_cell c) = ''Delivery Route'' then Inr (Some i) else find_header rs (Suc i))"

text \<open>
  \<^verbatim>\<open>pd.read_excel(xls, sheet_name="Report", header=header_row_idx)\<close>: the cells of the
  header row label the columns, the rows below it are the data. Only text labels are
  kept in the column index (another label never equals a column name the program asks
  for); of a repeated label the first column answers to the name. The index \<open>idx\<close> is
  the one the scan found, a row of the grid.
\<close>

fun label_pos :: "string \<Rightarrow> cell list \<Rightarrow> nat option" where
  "label_pos name [] = None"
| "label_pos name (c # cs) =
     (if c = CStr name then Some 0 else map_option Suc (label_pos name cs))"

definition row_of :: "cell list \<Rightarrow> cell list \<Rightarrow> row" where
  "row_of hdr data = (\<lambda>name. case label_pos name hdr of
                                None \<Rightarrow> CNaN
                              | Some j \<Rightarrow> (if j < length data then data ! j else CNaN))"

fun text_labels :: "cell list \<Rightarrow> string list" where
  "text_labels [] = []"
| "text_labels (CStr s # cs) = s # text_labels cs"
| "text_labels (c # cs) = text_labels cs"

definition read_excel_header :: "grid \<Rightarrow> nat \<Rightarrow> frame" where
  "read_excel_header g idx =
     (let hdr = g ! idx
      in \<lparr>columns = text_labels hdr, rows = map (row_of hdr) (drop (Suc idx) g)\<rparr>)"

text \<open>\<^verbatim>\<open>df.dropna(how="all", subset=cols)\<close>: a row stays when one of the cells is present.\<close>

definition dropna_all :: "string list \<Rightarrow> frame \<Rightarrow> frame" where
  "dropna_all cols df = df\<lparr>rows := filter (\<lambda>r. list_ex (\<lambda>c. \<not> isna (r c)) cols) (rows df)\<rparr>"

text \<open>
  Lines 57-70 of \<^verbatim>\<open>read_report\<close> (the whole of \<^verbatim>\<open>read_report\<close> in the day-first
  variant of the script): find the header, read the table, drop rows without identity,
  keep the expected columns that are present.
\<close>

definition load_report :: "xfile \<Rightarrow> error + frame" where
  "load_report xf =
     (case xf ''Report'' of
        None \<Rightarrow> Inl SheetNotFound
      | Some df0 \<Rightarrow>
          (case find_header (take 25 df0) 0 of
             Inl e \<Rightarrow> Inl e
           | Inr None \<Rightarrow> Inl HeaderNotFound
           | Inr (Some header_row_idx) \<Rightarrow>
               (let df = read_excel_header df0 header_row_idx;
                    present = filter (\<lambda>c. c \<in> set (columns df)) EXPECTED_COLS;
                    df = dropna_all (filter (\<lambda>c. c \<in> set (columns df))
                           [''Delivery Route'', ''Client ID'', ''Last Name'', ''First Name'']) df
                in select_columns present df)))"

subsection \<open>Derived columns\<close>

text \<open>Client Name: \<^verbatim>\<open>(first.astype(str) + " " + last.astype(str)).str.strip()\<close>.\<close>

definition client_name :: "row \<Rightarrow> cell" where
  "client_name r = CStr (strip (str_cell (r ''First Name'') @ '' '' @ str_cell (r ''Last Name'')))"

definition add_client_name :: "frame \<Rightarrow> error + frame" where
  "add_client_name df =
     (if ''First Name'' \<in> set (columns df) \<and> ''Last Name'' \<in> set (columns df)
      then insert_column 0 ''Client Name'' client_name df
      else Inr df)"

text \<open>
  Address: the parts present, Line 1 as \<^verbatim>\<open>astype(str)\<close>, Line 2 and Building as
  \<^verbatim>\<open>fillna("").astype(str)\<close>; then
  \<^verbatim>\<open>addr = parts[0]; for p in parts[1:]: addr = addr + ((" " + p).where(p.str.strip()!="", ""))\<close>
  and \<^verbatim>\<open>addr.str.strip()\<close>.
\<close>

definition address_parts :: "string list \<Rightarrow> (row \<Rightarrow> string) list" where
  "address_parts cols =
     (if ''Address Line 1'' \<in> set cols then [\<lambda>r. str_cell (r ''Address Line 1'')] else []) @
     (if ''Address Line 2'' \<in> set cols then [\<lambda>r. str_cell (fillna (CStr []) (r ''Address Line 2''))] else []) @
     (if ''Building'' \<in> set cols then [\<lambda>r. str_cell (fillna (CStr []) (r ''Building''))] else [])"

definition append_part :: "string \<Rightarrow> string \<Rightarrow> string" where
  "append_part addr p = addr @ (if strip p \<noteq> [] then '' '' @ p else [])"

definition address :: "(row \<Rightarrow> string) \<Rightarrow> (row \<Rightarrow> string) list \<Rightarrow> row \<Rightarrow> cell" where
  "address p ps r = CStr (strip (foldl append_part (p r) (map (\<lambda>q. q r) ps)))"

definition add_address :: "frame \<Rightarrow> error + frame" where
  "add_address df =
     (case address_parts (columns df) of
        [] \<Rightarrow> Inr df
      | p # ps \<Rightarrow> insert_column 1 ''Address'' (address p ps) df)"

text \<open>
  Phone. With both columns:
  \<^verbatim>\<open>phone = df["Mobile Phone"].fillna("")\<close>;
  \<^verbatim>\<open>phone = phone.mask(phone.str.strip()=="", df["Home Phone"].fillna(""))\<close>.
  The \<^verbatim>\<open>.str\<close> accessor gives NaN on a cell that is not text (which is never equal to
  the empty string), and raises AttributeError on a column holding numbers only or
  booleans only.
\<close>

fun is_int_cell :: "cell \<Rightarrow> bool" where
  "is_int_cell (CInt i) = True"
| "is_int_cell c = False"

fun is_bool_cell :: "cell \<Rightarrow> bool" where
  "is_bool_cell (CBool b) = True"
| "is_bool_cell c = False"

definition str_accessor_fails :: "cell list \<Rightarrow> bool" where
  "str_accessor_fails col = (col \<noteq> [] \<and> (list_all is_int_cell col \<or> list_all is_bool_cell col))"

fun blank_text :: "cell \<Rightarrow> bool" where
  "blank_text (CStr s) = (strip s = [])"
| "blank_text c = False"

definition phone_both :: "row \<Rightarrow> cell" where
  "phone_both r =
     (let phone = fillna (CStr []) (r ''Mobile Phone'');
          phone = (if blank_text phone then fillna (CStr []) (r ''Home Phone'') else phone)
      in CStr (strip (str_cell phone)))"

definition add_phone :: "frame \<Rightarrow> error + frame" where
  "add_phone df =
     (if ''Mobile Phone'' \<in> set (columns df) \<and> ''Home Phone'' \<in> set (columns df) then
        (if str_accessor_fails (map (\<lambda>r. fillna (CStr []) (r ''Mobile Phone'')) (rows df))
         then Inl AttributeError
         else insert_column 2 ''Phone'' phone_both df)
      else if ''Mobile Phone'' \<in> set (columns df) then
        insert_column 2 ''Phone'' (\<lambda>r. CStr (strip (str_cell (r ''Mobile Phone'')))) df
      else if ''Home Phone'' \<in> set (columns df) then
        insert_column 2 ''Phone'' (\<lambda>r. CStr (strip (str_cell (r ''Home Phone'')))) df
      else Inr df)"

text \<open>
  Meals: \<^verbatim>\<open>pd.to_numeric(col, errors="coerce").fillna(0).astype(int)\<close>. The numeric
  parser that pandas applies to a text is a parameter \<open>parse\<close>: \<open>None\<close> when the text
  is not a number. A bool counts as 1 or 0. \<^verbatim>\<open>astype(int)\<close> truncates towards zero.
\<close>

fun to_numeric :: "(string \<Rightarrow> rat option) \<Rightarrow> cell \<Rightarrow> rat option" where
  "to_numeric parse CNaN = None"
| "to_numeric parse (CStr s) = parse s"
| "to_numeric parse (CInt i) = Some (of_int i)"
| "to_numeric parse (CBool b) = Some (if b then 1 else 0)"

definition astype_int :: "rat \<Rightarrow> int" where
  "astype_int q = (if 0 \<le> q then \<lfloor>q\<rfloor> else \<lceil>q\<rceil>)"

definition coerce_meals :: "(string \<Rightarrow> rat option) \<Rightarrow> cell \<Rightarrow> cell" where
  "coerce_meals parse c = CInt (astype_int (case to_numeric parse c of None \<Rightarrow> 0 | Some q \<Rightarrow> q))"

definition add_meals :: "(string \<Rightarrow> rat option) \<Rightarrow> frame \<Rightarrow> frame" where
  "add_meals parse df =
     (if ''Quantity'' \<in> set (columns df)
      then set_column ''Meals'' (\<lambda>r. coerce_meals parse (r ''Quantity'')) df
      else set_column ''Meals'' (\<lambda>r. CInt 0) df)"

definition KEEP_COLS :: "string list" where
  "KEEP_COLS = [''Delivery Route'', ''Client ID'', ''Client Name'', ''Address'', ''Phone'',
                ''Meals'', ''Service Type'', ''Diet Type'', ''Delivered'']"

text \<open>Lines 72-109 of \<^verbatim>\<open>read_report\<close>; \<open>dflt\<close> is \<^verbatim>\<open>default_delivered_checked\<close>.\<close>

definition derive :: "(string \<Rightarrow> rat option) \<Rightarrow> bool \<Rightarrow> frame \<Rightarrow> error + frame" where
  "derive parse dflt df =
     (case add_client_name df of Inl e \<Rightarrow> Inl e | Inr df1 \<Rightarrow>
      case add_address df1 of Inl e \<Rightarrow> Inl e | Inr df2 \<Rightarrow>
      case add_phone df2 of Inl e \<Rightarrow> Inl e | Inr df3 \<Rightarrow>
        (let df4 = add_meals parse df3;
             df5 = set_column ''Delivered'' (\<lambda>r. CBool dflt) df4
         in select_columns (filter (\<lambda>c. c \<in> set (columns df5)) KEEP_COLS) df5))"

definition read_report :: "(string \<Rightarrow> rat option) \<Rightarrow> bool \<Rightarrow> xfile \<Rightarrow> error + frame" where
  "read_report parse dflt xf =
     (case load_report xf of Inl e \<Rightarrow> Inl e | Inr df \<Rightarrow> derive parse dflt df)"

text \<open>
  A numeric parser for examples: it reads an optionally signed run of decimal digits,
  surrounded by blanks, and nothing else.
\<close>

fun digits_value :: "string \<Rightarrow> nat \<Rightarrow> nat option" where
  "digits_value [] acc = Some acc"
| "digits_value (c # cs) acc =
     (let n = (of_char c :: nat)
      in if 48 \<le> n \<and> n \<le> 57 then digits_value cs (acc * 10 + (n - 48)) else None)"

definition int_literal :: "string \<Rightarrow> rat option" where
  "int_literal s =
     (case strip s of
        [] \<Rightarrow> None
      | c # cs \<Rightarrow>
          (if c = CHR ''-'' then (if cs = [] then None else map_option (\<lambda>n. - of_nat n) (digits_value cs 0))
           else if c = CHR ''+'' then (if cs = [] then None else map_option of_nat (digits_value cs 0))
           else map_option of_nat (digits_value (c # cs) 0)))"

section \<open>Week state and uploads\<close>

datatype day = Monday | Tuesday | Wednesday | Thursday | Friday

definition DAYS :: "day list" where
  "DAYS = [Monday, Tuesday, Wednesday, Thursday, Friday]"

fun day_name :: "day \<Rightarrow> string" where
  "day_name Monday = ''Monday''"
| "day_name Tuesday = ''Tuesday''"
| "day_name Wednesday = ''Wednesday''"
| "day_name Thursday = ''Thursday''"
| "day_name Friday = ''Friday''"

text \<open>
  \<^verbatim>\<open>st.session_state.week_state\<close>: a table or \<^verbatim>\<open>None\<close> for each day. What the script
  shows with \<^verbatim>\<open>st.error\<close> and \<^verbatim>\<open>st.success\<close> is kept as a list of notices.
\<close>

type_synonym week = "day \<Rightarrow> frame option"

datatype notice = UploadError day error | LoadFailed error | LoadOk

record session =
  week_state :: week
  notices :: "notice list"

definition empty_week_state :: week where
  "empty_week_state = (\<lambda>d. None)"

text \<open>
  The upload loop: \<^verbatim>\<open>for d in DAYS: if uploads[d] is not None: try: ... except Exception as e: st.error(...)\<close>.
\<close>

fun upload_days ::
  "(string \<Rightarrow> rat option) \<Rightarrow> bool \<Rightarrow> (day \<Rightarrow> xfile option) \<Rightarrow> day list \<Rightarrow> session \<Rightarrow> session" where
  "upload_days parse dflt uploads [] st = st"
| "upload_days parse dflt uploads (d # ds) st =
     upload_days parse dflt uploads ds
       (case uploads d of
          None \<Rightarrow> st
        | Some xf \<Rightarrow>
            (case read_report parse dflt xf of
               Inl e \<Rightarrow> st\<lparr>notices := notices st @ [UploadError d e]\<rparr>
             | Inr df \<Rightarrow> st\<lparr>week_state := (week_state st)(d := Some (ensure_rowid df))\<rparr>))"

definition upload_loop ::
  "(string \<Rightarrow> rat option) \<Rightarrow> bool \<Rightarrow> (day \<Rightarrow> xfile option) \<Rightarrow> session \<Rightarrow> session" where
  "upload_loop parse dflt uploads st = upload_days parse dflt uploads DAYS st"

section \<open>Route selection\<close>

text \<open>
  The inner loop of \<^verbatim>\<open>filter_routes_from_week\<close> (and the loop of \<^verbatim>\<open>route_list\<close>) over
  the cells of the route column, with the set \<^verbatim>\<open>seen\<close> and the list \<^verbatim>\<open>order\<close>.
\<close>

fun route_scan :: "bool \<Rightarrow> cell list \<Rightarrow> string set \<times> string list \<Rightarrow> string set \<times> string list" where
  "route_scan flag [] (seen, order) = (seen, order)"
| "route_scan flag (r # rest) (seen, order) =
     (if isna r then route_scan flag rest (seen, order)
      else let rs = str_cell r
           in if flag \<and> contains ''COPO'' (upper rs) then route_scan flag rest (seen, order)
              else if rs \<notin> seen then route_scan flag rest (insert rs seen, order @ [rs])
              else route_scan flag rest (seen, order))"

text \<open>
  The cells a day contributes: those of its route column when the day has a table that
  is not empty and has the column.
\<close>

definition day_route_cells :: "frame option \<Rightarrow> cell list" where
  "day_route_cells t =
     (case t of
        None \<Rightarrow> []
      | Some df \<Rightarrow>
          (if \<not> empty_frame df \<and> ''Delivery Route'' \<in> set (columns df)
           then map (\<lambda>r. r ''Delivery Route'') (rows df)
           else []))"

fun scan_days :: "week \<Rightarrow> bool \<Rightarrow> day list \<Rightarrow> string set \<times> string list \<Rightarrow> string set \<times> string list" where
  "scan_days ws flag [] acc = acc"
| "scan_days ws flag (d # ds) acc = scan_days ws flag ds (route_scan flag (day_route_cells (ws d)) acc)"

definition filter_routes_from_week :: "week \<Rightarrow> bool \<Rightarrow> nat \<Rightarrow> string list" where
  "filter_routes_from_week ws exclude_copo_flag cap =
     take cap (snd (scan_days ws exclude_copo_flag DAYS ({}, [])))"

text \<open>
  \<^verbatim>\<open>route_list\<close> of the day-first variant: one table, the same loop, at most 14 routes.
  The loop reads \<^verbatim>\<open>df["Delivery Route"]\<close> and raises KeyError without the column.
\<close>

definition route_list :: "bool \<Rightarrow> frame \<Rightarrow> error + string list" where
  "route_list exclude_copo df =
     (if ''Delivery Route'' \<notin> set (columns df) then Inl (KeyError ''Delivery Route'')
      else Inr (take 14 (snd (route_scan exclude_copo (map (\<lambda>r. r ''Delivery Route'') (rows df)) ({}, [])))))"

text \<open>
  What the specification asks of route selection, in its own words: the distinct names
  in first-seen order.
\<close>

fun first_seen :: "'a list \<Rightarrow> 'a list" where
  "first_seen [] = []"
| "first_seen (x # xs) = x # filter (\<lambda>y. y \<noteq> x) (first_seen xs)"

definition excluded :: "bool \<Rightarrow> string \<Rightarrow> bool" where
  "excluded flag name = (flag \<and> contains ''COPO'' (upper name))"

definition route_names :: "bool \<Rightarrow> cell list \<Rightarrow> string list" where
  "route_names flag cs =
     filter (\<lambda>name. \<not> excluded flag name) (map str_cell (filter (\<lambda>c. \<not> isna c) cs))"

section \<open>Week snapshot\<close>

text \<open>
  The JSON document of a snapshot, as \<^verbatim>\<open>json.load\<close> returns it: an object whose day
  keys hold null or a list of row objects with scalar values (NaN is the literal that
  \<^verbatim>\<open>json.dumps\<close> writes for a missing value). A day holding a number or a boolean
  makes \<^verbatim>\<open>DataFrame.from_records\<close> raise TypeError; a document that is not an object
  makes \<^verbatim>\<open>raw.get\<close> raise AttributeError. Other shapes are outside the model.
\<close>

datatype jvalue = JNaN | JBool bool | JNum int | JStr string

type_synonym jrecord = "(string \<times> jvalue) list"

datatype jday = JNull | JRecords "jrecord list" | JDayNumber int | JDayBool bool

datatype jdoc = JObject "(string \<times> jday) list" | JNotObject

fun json_of_cell :: "cell \<Rightarrow> jvalue" where
  "json_of_cell CNaN = JNaN"
| "json_of_cell (CStr s) = JStr s"
| "json_of_cell (CInt i) = JNum i"
| "json_of_cell (CBool b) = JBool b"

fun cell_of_json :: "jvalue \<Rightarrow> cell" where
  "cell_of_json JNaN = CNaN"
| "cell_of_json (JStr s) = CStr s"
| "cell_of_json (JNum i) = CInt i"
| "cell_of_json (JBool b) = CBool b"

text \<open>\<^verbatim>\<open>df.to_dict(orient="records")\<close> and the payload of the save handler.\<close>

definition to_dict_records :: "frame \<Rightarrow> jrecord list" where
  "to_dict_records df = map (\<lambda>r. map (\<lambda>c. (c, json_of_cell (r c))) (columns df)) (rows df)"

definition save_week_state :: "week \<Rightarrow> jdoc" where
  "save_week_state ws =
     JObject (map (\<lambda>d. (day_name d, case ws d of None \<Rightarrow> JNull
                                         | Some df \<Rightarrow> JRecords (to_dict_records df))) DAYS)"

text \<open>
  \<^verbatim>\<open>pd.DataFrame.from_records(recs)\<close> on a list of row objects: the columns are the keys
  in the order they first appear, a key that a row lacks reads NaN.
\<close>

definition unique_keys :: "string list \<Rightarrow> string list" where
  "unique_keys ks = foldl (\<lambda>acc k. if k \<in> set acc then acc else acc @ [k]) [] ks"

definition record_row :: "jrecord \<Rightarrow> row" where
  "record_row rec = (\<lambda>c. case map_of rec c of None \<Rightarrow> CNaN | Some v \<Rightarrow> cell_of_json v)"

definition from_records :: "jrecord list \<Rightarrow> frame" where
  "from_records recs =
     \<lparr>columns = unique_keys (concat (map (map fst) recs)), rows = map record_row recs\<rparr>"

text \<open>Lines 294-300 of the load handler, for one day that holds records.\<close>

definition restore_day :: "(string \<Rightarrow> rat option) \<Rightarrow> bool \<Rightarrow> jrecord list \<Rightarrow> frame" where
  "restore_day parse dflt recs =
     (let df = ensure_rowid (from_records recs);
          df = (if ''Delivered'' \<notin> set (columns df)
                then set_column ''Delivered'' (\<lambda>r. CBool dflt) df else df)
      in if ''Meals'' \<in> set (columns df)
         then set_column ''Meals'' (\<lambda>r. coerce_meals parse (r ''Meals'')) df
         else df)"

text \<open>
  The loop \<^verbatim>\<open>for d in DAYS\<close> that fills the local \<^verbatim>\<open>new_state\<close>; \<open>raw\<close> is
  \<^verbatim>\<open>raw.get\<close>.
\<close>

fun build_state ::
  "(string \<Rightarrow> rat option) \<Rightarrow> bool \<Rightarrow> (string \<Rightarrow> jday option) \<Rightarrow> day list \<Rightarrow> week \<Rightarrow> error + week" where
  "build_state parse dflt raw [] new_state = Inr new_state"
| "build_state parse dflt raw (d # ds) new_state =
     (case raw (day_name d) of
        None \<Rightarrow> build_state parse dflt raw ds (new_state(d := None))
      | Some JNull \<Rightarrow> build_state parse dflt raw ds (new_state(d := None))
      | Some (JRecords recs) \<Rightarrow>
          build_state parse dflt raw ds (new_state(d := Some (restore_day parse dflt recs)))
      | Some (JDayNumber n) \<Rightarrow> Inl TypeError
      | Some (JDayBool b) \<Rightarrow> Inl TypeError)"

text \<open>
  \<^verbatim>\<open>json.load(up)\<close> followed by the loop; \<open>None\<close> is a file that is not JSON.
\<close>

definition load_state :: "(string \<Rightarrow> rat option) \<Rightarrow> bool \<Rightarrow> jdoc option \<Rightarrow> error + week" where
  "load_state parse dflt content =
     (case content of
        None \<Rightarrow> Inl JSONDecodeError
      | Some JNotObject \<Rightarrow> Inl AttributeError
      | Some (JObject kvs) \<Rightarrow> build_state parse dflt (map_of kvs) DAYS empty_week_state)"

text \<open>
  The load handler: \<^verbatim>\<open>if up is not None: try: ...; st.session_state.week_state = new_state;\<close>
  \<^verbatim>\<open>st.success(...) except Exception as e: st.error(...)\<close>.
\<close>

definition load_week_json ::
  "(string \<Rightarrow> rat option) \<Rightarrow> bool \<Rightarrow> jdoc option option \<Rightarrow> session \<Rightarrow> session" where
  "load_week_json parse dflt up st =
     (case up of
        None \<Rightarrow> st
      | Some content \<Rightarrow>
          (case load_state parse dflt content of
             Inl e \<Rightarrow> st\<lparr>notices := notices st @ [LoadFailed e]\<rparr>
           | Inr new_state \<Rightarrow> st\<lparr>week_state := new_state, notices := notices st @ [LoadOk]\<rparr>))"

section \<open>Export on a store of tables\<close>

text \<open>
  To see which table an assignment of \<^verbatim>\<open>to_excel_route_day\<close> changes, tables live in a
  store and are passed by reference. \<^verbatim>\<open>reset_index\<close>, boolean indexing and \<^verbatim>\<open>.copy()\<close>
  make a new table; \<^verbatim>\<open>df.insert\<close> and \<^verbatim>\<open>rdf["Delivered"] = ...\<close> change the table they
  are applied to.
\<close>

record store =
  next_ref :: nat
  objs :: "nat \<Rightarrow> frame option"

definition alloc :: "frame \<Rightarrow> store \<Rightarrow> nat \<times> store" where
  "alloc df h = (next_ref h, h\<lparr>next_ref := Suc (next_ref h), objs := (objs h)(next_ref h \<mapsto> df)\<rparr>)"

definition assign_column :: "nat \<Rightarrow> string \<Rightarrow> (row \<Rightarrow> cell) \<Rightarrow> store \<Rightarrow> store" where
  "assign_column a c f h = h\<lparr>objs := (objs h)(a := map_option (set_column c f) (objs h a))\<rparr>"

definition ensure_rowid_ref :: "nat \<Rightarrow> store \<Rightarrow> nat \<times> store" where
  "ensure_rowid_ref a h =
     (case objs h a of
        None \<Rightarrow> (a, h)
      | Some df \<Rightarrow>
          (if empty_frame df then (a, h)
           else if ''RowID'' \<in> set (columns df) then (a, h)
           else let (b, h1) = alloc df h
                in (b, h1\<lparr>objs := (objs h1)(b := map_option ensure_rowid (objs h1 b))\<rparr>)))"

definition to_excel_route_day_ref :: "nat \<Rightarrow> string \<Rightarrow> store \<Rightarrow> (error + workbook_sheet) \<times> store" where
  "to_excel_route_day_ref a route_name h =
     (let (a1, h1) = ensure_rowid_ref a h
      in case objs h1 a1 of
           None \<Rightarrow> (Inl AttributeError, h1)
         | Some df \<Rightarrow>
             (if ''Delivery Route'' \<notin> set (columns df) then (Inl (KeyError ''Delivery Route''), h1)
              else
                let cols = filter (\<lambda>c. c \<in> set (columns df)) export_cols;
                    (a2, h2) = alloc \<lparr>columns = cols,
                                      rows = map (restrict_row cols)
                                               (filter (\<lambda>r. str_cell (r ''Delivery Route'') = route_name)
                                                  (rows df))\<rparr> h1;
                    h3 = (if ''Delivered'' \<in> set cols
                          then assign_column a2 ''Delivered'' (\<lambda>r. delivered_mark (r ''Delivered'')) h2
                          else h2)
                in case objs h3 a2 of
                     None \<Rightarrow> (Inl AttributeError, h3)
                   | Some rdf \<Rightarrow>
                       (Inr \<lparr>sheet_name = safe_sheet_name route_name,
                             cells = write_totals rdf (to_excel rdf)\<rparr>, h3)))"

text \<open>
  The two outcomes of the loop body for one day, by the value \<^verbatim>\<open>raw.get(d)\<close>: it raises,
  or it stores a table or \<^verbatim>\<open>None\<close>.
\<close>

fun day_fails :: "jday option \<Rightarrow> bool" where
  "day_fails (Some (JDayNumber n)) = True"
| "day_fails (Some (JDayBool b)) = True"
| "day_fails v = False"

fun day_table :: "(string \<Rightarrow> rat option) \<Rightarrow> bool \<Rightarrow> jday option \<Rightarrow> frame option" where
  "day_table parse dflt (Some (JRecords recs)) = Some (restore_day parse dflt recs)"
| "day_table parse dflt v = None"

text \<open>Whether one of the row objects has the key.\<close>

definition has_key :: "string \<Rightarrow> jrecord list \<Rightarrow> bool" where
  "has_key k recs = list_ex (\<lambda>rec. k \<in> set (map fst rec)) recs"

section \<open>The other export sheets\<close>

text \<open>
  One day's sheet of \<^verbatim>\<open>to_excel_route_week\<close>: the rows of the route, the fixed list of
  columns (a missing one raises KeyError), the delivered mark, then the same TOTALS
  statements as in \<^verbatim>\<open>to_excel_route_day\<close>. The caller skips a day without a table.
\<close>

fun DAY_SHORT :: "day \<Rightarrow> string" where
  "DAY_SHORT Monday = ''Mon''"
| "DAY_SHORT Tuesday = ''Tue''"
| "DAY_SHORT Wednesday = ''Wed''"
| "DAY_SHORT Thursday = ''Thu''"
| "DAY_SHORT Friday = ''Fri''"

definition route_week_frame :: "frame \<Rightarrow> string \<Rightarrow> error + frame" where
  "route_week_frame df_day route_name =
     (if ''Delivery Route'' \<notin> set (columns df_day) then Inl (KeyError ''Delivery Route'')
      else case select_columns export_cols
                  (df_day\<lparr>rows := filter (\<lambda>r. str_cell (r ''Delivery Route'') = route_name) (rows df_day)\<rparr>) of
             Inl e \<Rightarrow> Inl e
           | Inr rdf \<Rightarrow>
               Inr (if ''Delivered'' \<in> set (columns rdf)
                    then set_column ''Delivered'' (\<lambda>r. delivered_mark (r ''Delivered'')) rdf
                    else rdf))"

definition route_week_sheet :: "day \<Rightarrow> frame \<Rightarrow> string \<Rightarrow> error + workbook_sheet" where
  "route_week_sheet d df_day route_name =
     (case route_week_frame df_day route_name of
        Inl e \<Rightarrow> Inl e
      | Inr rdf \<Rightarrow> Inr \<lparr>sheet_name = safe_sheet_name (DAY_SHORT d @ ''_'' @ route_name),
                        cells = write_totals rdf (to_excel rdf)\<rparr>)"

text \<open>
  One route's sheet of \<^verbatim>\<open>to_excel_by_route\<close> in the day-first variant: all columns of the
  day table, the delivered mark, the TOTALS label and the COUNTIF formula (this variant
  has no Meals column and writes no SUM).
\<close>

definition by_route_frame :: "frame \<Rightarrow> string \<Rightarrow> error + frame" where
  "by_route_frame df route =
     (if ''Delivery Route'' \<notin> set (columns df) then Inl (KeyError ''Delivery Route'')
      else let rdf = df\<lparr>rows := filter (\<lambda>r. str_cell (r ''Delivery Route'') = route) (rows df)\<rparr>
           in Inr (if ''Delivered'' \<in> set (columns rdf)
                   then set_column ''Delivered'' (\<lambda>r. delivered_mark (r ''Delivered'')) rdf
                   else rdf))"

definition write_count_total :: "frame \<Rightarrow> worksheet \<Rightarrow> worksheet" where
  "write_count_total rdf ws0 =
     (let nrows = length (rows rdf);
          total_row = nrows + 1;
          ws1 = ws_write total_row 0 (XStr ''TOTALS'') ws0
      in if ''Delivered'' \<in> set (columns rdf)
         then let dcol = get_loc ''Delivered'' (columns rdf)
              in ws_write total_row dcol (XFormula (countif_formula (col_letter dcol) nrows)) ws1
         else ws1)"

definition by_route_sheet :: "frame \<Rightarrow> string \<Rightarrow> error + workbook_sheet" where
  "by_route_sheet df route =
     (case by_route_frame df route of
        Inl e \<Rightarrow> Inl e
      | Inr rdf \<Rightarrow> Inr \<lparr>sheet_name = (let s = take 31 (filter isalnum route)
                                       in if s = [] then ''Route'' else s),
                        cells = write_count_total rdf (to_excel rdf)\<rparr>)"

section \<open>Example data\<close>

definition demo_day :: frame where
  "demo_day = \<lparr>columns = [''Delivery Route'', ''Meals'', ''Delivered''],
     rows = [(\<lambda>_. CNaN)(''Delivery Route'' := CStr ''A'', ''Meals'' := CInt 2, ''Delivered'' := CBool True),
             (\<lambda>_. CNaN)(''Delivery Route'' := CStr ''B'', ''Meals'' := CInt 1, ''Delivered'' := CBool False)]\<rparr>"

definition route_row :: "string \<Rightarrow> row" where
  "route_row name = (\<lambda>_. CNaN)(''Delivery Route'' := CStr name)"

definition demo_week :: week where
  "demo_week = empty_week_state
     (Monday := Some \<lparr>columns = [''Delivery Route''], rows = [route_row ''B'', route_row ''A'']\<rparr>,
      Tuesday := Some \<lparr>columns = [''Delivery Route''],
                       rows = [route_row ''B'', route_row ''copo-east'', route_row ''C'']\<rparr>)"

definition example_week :: week where
  "example_week = empty_week_state
     (Monday := Some \<lparr>columns = [''Delivery Route''], rows = [route_row ''B'', route_row ''A'']\<rparr>,
      Tuesday := Some \<lparr>columns = [''Delivery Route''], rows = [route_row ''B'', route_row ''C'']\<rparr>)"

text \<open>
  A report whose second data row has a negative quantity, and whose first data row has an
  empty Address Line 1, a blank mobile phone and a quantity that is not a number.
\<close>

definition good_file :: xfile where
  "good_file = (\<lambda>_. None)(''Report'' := Some
     [[CStr ''Weekly report''],
      [CStr ''Delivery Route'', CStr ''Client ID'', CStr ''Address Line 1'', CStr ''Address Line 2'',
       CStr ''Mobile Phone'', CStr ''Home Phone'', CStr ''Quantity''],
      [CStr ''R1'', CInt 17, CNaN, CStr ''Apt 4'', CStr '' '', CStr ''555-1234 '', CStr ''abc''],
      [CStr ''R2'', CInt 18, CStr ''12 Main St'', CNaN, CStr ''555-0000'', CNaN, CInt (- 3)]])"

text \<open>A report whose header cell carries a leading blank, and one without the header.\<close>

definition padded_file :: xfile where
  "padded_file = (\<lambda>_. None)(''Report'' := Some
     [[CStr '' Delivery Route'', CStr ''Quantity''], [CStr ''R1'', CInt 2]])"

definition no_header_file :: xfile where
  "no_header_file = (\<lambda>_. None)(''Report'' := Some [[CStr ''Route''], [CStr ''R1'']])"

definition demo_uploads :: "day \<Rightarrow> xfile option" where
  "demo_uploads = (\<lambda>_. None)(Monday := Some no_header_file, Tuesday := Some good_file)"

definition demo_session :: session where
  "demo_session = \<lparr>week_state = empty_week_state(Monday := Some demo_day), notices = []\<rparr>"



text \<open>A store that holds the example table at address 0.\<close>

definition demo_store :: store where
  "demo_store = \<lparr>next_ref = 1, objs = (\<lambda>_. None)(0 := Some demo_day)\<rparr>"

section \<open>Totals row and column letters\<close>


lemma col_letter_loop_0 [simp]: "col_letter_loop 0 s = s"
  by (subst col_letter_loop.simps) simp

lemma col_letter_loop_pos:
  "i \<noteq> 0 \<Longrightarrow> col_letter_loop i s = col_letter_loop ((i - 1) div 26) (char_of (65 + (i - 1) mod 26) # s)"
  by (subst col_letter_loop.simps) simp

lemma div26_less: "0 < (i::nat) \<Longrightarrow> (i - 1) div 26 < i"
  using div_le_dividend[of "i - 1" 26] by linarith

lemma col_letter_loop_append: "col_letter_loop i s = col_letter_loop i [] @ s"
proof (induction i arbitrary: s rule: less_induct)
  case (less i)
  show ?case
  proof (cases "i = 0")
    case True
    then show ?thesis by simp
  next
    case False
    let ?j = "(i - 1) div 26" and ?c = "char_of (65 + (i - 1) mod 26) :: char"
    have lt: "?j < i" using False by (simp add: div26_less)
    have "col_letter_loop i s = col_letter_loop ?j (?c # s)"
      using False by (rule col_letter_loop_pos)
    also have "\<dots> = col_letter_loop ?j [] @ (?c # s)"
      using less[OF lt] by blast
    also have "\<dots> = (col_letter_loop ?j [] @ [?c]) @ s"
      by simp
    also have "col_letter_loop ?j [] @ [?c] = col_letter_loop ?j [?c]"
      using less[OF lt, of "[?c]"] by simp
    also have "col_letter_loop ?j [?c] = col_letter_loop i []"
      using False by (rule col_letter_loop_pos[symmetric])
    finally show ?thesis .
  qed
qed

lemma col_letter_loop_step:
  "0 < i \<Longrightarrow> col_letter_loop i [] = col_letter_loop ((i - 1) div 26) [] @ [char_of (65 + (i - 1) mod 26)]"
  using col_letter_loop_append[of "(i - 1) div 26" "[char_of (65 + (i - 1) mod 26)]"]
    col_letter_loop_pos[of i "[]"] by simp

lemma of_char_letter: "of_char (char_of (65 + (k::nat) mod 26)) = 65 + k mod 26"
proof -
  have "k mod 26 < 26" by simp
  then have "65 + k mod 26 < 256" by linarith
  then show ?thesis by simp
qed

lemma col_number_snoc: "col_number (s @ [c]) = col_number s * 26 + (of_char c - 64)"
  by (simp add: col_number_def)

lemma col_number_loop: "col_number (col_letter_loop i []) = i"
proof (induction i rule: less_induct)
  case (less i)
  show ?case
  proof (cases "i = 0")
    case True
    then show ?thesis by (simp add: col_number_def)
  next
    case False
    let ?j = "(i - 1) div 26"
    have lt: "?j < i" using False by (simp add: div26_less)
    have "col_number (col_letter_loop i []) = ?j * 26 + (65 + (i - 1) mod 26 - 64)"
      using False less[OF lt] by (simp only: col_letter_loop_step col_number_snoc of_char_letter neq0_conv)
    also have "\<dots> = ?j * 26 + (i - 1) mod 26 + 1" by simp
    also have "\<dots> = i" using False by simp
    finally show ?thesis .
  qed
qed

lemma capital_loop: "list_all is_capital (col_letter_loop i [])"
proof (induction i rule: less_induct)
  case (less i)
  show ?case
  proof (cases "i = 0")
    case True
    then show ?thesis by simp
  next
    case False
    let ?j = "(i - 1) div 26"
    have lt: "?j < i" using False by (simp add: div26_less)
    have "is_capital (char_of (65 + (i - 1) mod 26))"
      unfolding is_capital_def of_char_letter by simp
    then show ?thesis
      using False less[OF lt] by (simp add: col_letter_loop_step)
  qed
qed

lemma get_loc_nth: "c \<in> set xs \<Longrightarrow> get_loc c xs < length xs \<and> xs ! get_loc c xs = c"
  by (induction xs) auto



lemma route_frame_columns:
  assumes "route_frame df route = Inr rdf"
  shows "''Delivery Route'' \<in> set (columns (ensure_rowid df))"
    and "columns rdf = filter (\<lambda>c. c \<in> set (columns (ensure_rowid df))) export_cols"
proof -
  let ?df = "ensure_rowid df"
  let ?cols = "filter (\<lambda>c. c \<in> set (columns ?df)) export_cols"
  let ?rdf = "\<lparr>columns = ?cols,
               rows = map (restrict_row ?cols)
                        (filter (\<lambda>r. str_cell (r ''Delivery Route'') = route) (rows ?df))\<rparr>"
  show in_cols: "''Delivery Route'' \<in> set (columns ?df)"
    using assms unfolding route_frame_def Let_def by (simp split: if_splits)
  show "columns rdf = ?cols"
  proof (cases "''Delivered'' \<in> set ?cols")
    case True
    then have "rdf = set_column ''Delivered'' (\<lambda>r. delivered_mark (r ''Delivered'')) ?rdf"
      using assms in_cols unfolding route_frame_def Let_def by simp
    then show ?thesis using True unfolding set_column_def by simp
  next
    case False
    then have "rdf = ?rdf"
      using assms in_cols unfolding route_frame_def Let_def by (simp split: if_splits)
    then show ?thesis by simp
  qed
qed

lemma route_columns_shape:
  assumes "route_frame df route = Inr rdf"
  shows "\<exists>cs. columns rdf = ''Delivery Route'' # cs \<and> distinct (''Delivery Route'' # cs)"
proof -
  have d: "distinct (columns rdf)"
    unfolding route_frame_columns(2)[OF assms] by (rule distinct_filter) (simp add: export_cols_def)
  have "columns rdf = ''Delivery Route'' # filter (\<lambda>c. c \<in> set (columns (ensure_rowid df))) (tl export_cols)"
    unfolding route_frame_columns(2)[OF assms] using route_frame_columns(1)[OF assms]
    by (simp add: export_cols_def)
  with d show ?thesis by metis
qed

lemma get_loc_inj:
  "a \<in> set xs \<Longrightarrow> b \<in> set xs \<Longrightarrow> a \<noteq> b \<Longrightarrow> get_loc a xs \<noteq> get_loc b xs"
proof
  assume a: "a \<in> set xs" and b: "b \<in> set xs" and ne: "a \<noteq> b" and eq: "get_loc a xs = get_loc b xs"
  have "a = xs ! get_loc a xs" using get_loc_nth[OF a] by simp
  also have "\<dots> = b" unfolding eq using get_loc_nth[OF b] by simp
  finally show False using ne by simp
qed

lemma route_week_columns:
  assumes "route_week_frame df route = Inr rdf"
  shows "columns rdf = export_cols"
proof -
  let ?sel = "df\<lparr>rows := filter (\<lambda>r. str_cell (r ''Delivery Route'') = route) (rows df)\<rparr>"
  obtain r0 where r0: "select_columns export_cols ?sel = Inr r0"
    and e: "rdf = (if ''Delivered'' \<in> set (columns r0)
                   then set_column ''Delivered'' (\<lambda>r. delivered_mark (r ''Delivered'')) r0 else r0)"
    using assms unfolding route_week_frame_def
    by (cases "select_columns export_cols ?sel") (auto split: if_splits)
  have c0: "columns r0 = export_cols"
    using r0 unfolding select_columns_def by (auto split: list.splits)
  show ?thesis unfolding e using c0 by (simp add: set_column_def)
qed

lemma week_columns_shape:
  assumes "route_week_frame df route = Inr rdf"
  shows "\<exists>cs. columns rdf = ''Delivery Route'' # cs \<and> distinct (''Delivery Route'' # cs)"
  unfolding route_week_columns[OF assms] by (simp add: export_cols_def)

lemma write_totals_spec:
  assumes cs: "columns rdf = ''Delivery Route'' # cs" "distinct (''Delivery Route'' # cs)"
  shows "(\<forall>r c. 1 \<le> r \<and> r \<le> length (rows rdf) \<and> c < length (columns rdf) \<longrightarrow>
            write_totals rdf (to_excel rdf) (r, c)
              = Some (xcell_of ((rows rdf ! (r - 1)) (columns rdf ! c))))
       \<and> write_totals rdf (to_excel rdf) (length (rows rdf) + 1, 0) = Some (XStr ''TOTALS'')
       \<and> (\<forall>r c. length (rows rdf) + 1 < r \<longrightarrow> write_totals rdf (to_excel rdf) (r, c) = None)
       \<and> (''Delivered'' \<in> set (columns rdf) \<longrightarrow>
            columns rdf ! get_loc ''Delivered'' (columns rdf) = ''Delivered'' \<and>
            write_totals rdf (to_excel rdf) (length (rows rdf) + 1, get_loc ''Delivered'' (columns rdf))
              = Some (XFormula (''=COUNTIF('' @ col_letter (get_loc ''Delivered'' (columns rdf)) @ ''2:''
                   @ col_letter (get_loc ''Delivered'' (columns rdf))
                   @ show_nat (length (rows rdf) + 1) @ '',\"X\")'')))
       \<and> (''Meals'' \<in> set (columns rdf) \<longrightarrow>
            columns rdf ! get_loc ''Meals'' (columns rdf) = ''Meals'' \<and>
            write_totals rdf (to_excel rdf) (length (rows rdf) + 1, get_loc ''Meals'' (columns rdf))
              = Some (XFormula (''=SUM('' @ col_letter (get_loc ''Meals'' (columns rdf)) @ ''2:''
                   @ col_letter (get_loc ''Meals'' (columns rdf))
                   @ show_nat (length (rows rdf) + 1) @ '')'')))"
proof -
  let ?n = "length (rows rdf)"
  let ?ws = "write_totals rdf (to_excel rdf)"
  let ?d = "get_loc ''Delivered'' (columns rdf)"
  let ?m = "get_loc ''Meals'' (columns rdf)"
  have dpos: "0 < ?d" unfolding cs by simp
  have mpos: "0 < ?m" unfolding cs by simp
  have dm: "''Delivered'' \<in> set (columns rdf) \<Longrightarrow> ''Meals'' \<in> set (columns rdf) \<Longrightarrow> ?d \<noteq> ?m"
    by (rule get_loc_inj) simp_all
  have ws_eq: "?ws = (let ws1 = ws_write (?n + 1) 0 (XStr ''TOTALS'') (to_excel rdf);
          ws2 = (if ''Delivered'' \<in> set (columns rdf)
                 then ws_write (?n + 1) ?d (XFormula (countif_formula (col_letter ?d) ?n)) ws1
                 else ws1)
      in if ''Meals'' \<in> set (columns rdf)
         then ws_write (?n + 1) ?m (XFormula (sum_formula (col_letter ?m) ?n)) ws2
         else ws2)"
    unfolding write_totals_def Let_def by simp
  have B: "\<forall>r c. 1 \<le> r \<and> r \<le> ?n \<and> c < length (columns rdf) \<longrightarrow>
                 ?ws (r, c) = Some (xcell_of ((rows rdf ! (r - 1)) (columns rdf ! c)))"
    unfolding ws_eq by (auto simp: Let_def ws_write_def to_excel_def)
  have C: "?ws (?n + 1, 0) = Some (XStr ''TOTALS'')"
    unfolding ws_eq using dpos mpos by (simp add: Let_def ws_write_def)
  have D: "\<forall>r c. ?n + 1 < r \<longrightarrow> ?ws (r, c) = None"
    unfolding ws_eq by (auto simp: Let_def ws_write_def to_excel_def)
  have E: "''Delivered'' \<in> set (columns rdf) \<longrightarrow>
              columns rdf ! ?d = ''Delivered'' \<and>
              ?ws (?n + 1, ?d) = Some (XFormula (''=COUNTIF('' @ col_letter ?d @ ''2:'' @ col_letter ?d @ show_nat (?n + 1) @ '',\"X\")''))"
    unfolding ws_eq using dm get_loc_nth[of "''Delivered''" "columns rdf"]
    by (auto simp: Let_def ws_write_def countif_formula_def)
  have F: "''Meals'' \<in> set (columns rdf) \<longrightarrow>
              columns rdf ! ?m = ''Meals'' \<and>
              ?ws (?n + 1, ?m) = Some (XFormula (''=SUM('' @ col_letter ?m @ ''2:'' @ col_letter ?m @ show_nat (?n + 1) @ '')''))"
    unfolding ws_eq using get_loc_nth[of "''Meals''" "columns rdf"]
    by (auto simp: Let_def ws_write_def sum_formula_def)
  show ?thesis using B C D E F by blast
qed

lemma write_count_total_spec:
  "(\<forall>r c. 1 \<le> r \<and> r \<le> length (rows rdf) \<and> c < length (columns rdf) \<longrightarrow>
      write_count_total rdf (to_excel rdf) (r, c)
        = Some (xcell_of ((rows rdf ! (r - 1)) (columns rdf ! c))))
   \<and> (\<forall>r c. length (rows rdf) + 1 < r \<longrightarrow> write_count_total rdf (to_excel rdf) (r, c) = None)
   \<and> (''Delivered'' \<notin> set (columns rdf) \<or> get_loc ''Delivered'' (columns rdf) \<noteq> 0 \<longrightarrow>
        write_count_total rdf (to_excel rdf) (length (rows rdf) + 1, 0) = Some (XStr ''TOTALS''))
   \<and> (''Delivered'' \<in> set (columns rdf) \<longrightarrow>
        columns rdf ! get_loc ''Delivered'' (columns rdf) = ''Delivered'' \<and>
        write_count_total rdf (to_excel rdf) (length (rows rdf) + 1, get_loc ''Delivered'' (columns rdf))
          = Some (XFormula (''=COUNTIF('' @ col_letter (get_loc ''Delivered'' (columns rdf)) @ ''2:''
               @ col_letter (get_loc ''Delivered'' (columns rdf))
               @ show_nat (length (rows rdf) + 1) @ '',\"X\")'')))"
proof -
  let ?n = "length (rows rdf)"
  let ?ws = "write_count_total rdf (to_excel rdf)"
  let ?d = "get_loc ''Delivered'' (columns rdf)"
  have ws_eq: "?ws = (let ws1 = ws_write (?n + 1) 0 (XStr ''TOTALS'') (to_excel rdf)
      in if ''Delivered'' \<in> set (columns rdf)
         then ws_write (?n + 1) ?d (XFormula (countif_formula (col_letter ?d) ?n)) ws1
         else ws1)"
    unfolding write_count_total_def Let_def by simp
  have B: "\<forall>r c. 1 \<le> r \<and> r \<le> ?n \<and> c < length (columns rdf) \<longrightarrow>
                 ?ws (r, c) = Some (xcell_of ((rows rdf ! (r - 1)) (columns rdf ! c)))"
    unfolding ws_eq by (auto simp: Let_def ws_write_def to_excel_def)
  have D: "\<forall>r c. ?n + 1 < r \<longrightarrow> ?ws (r, c) = None"
    unfolding ws_eq by (auto simp: Let_def ws_write_def to_excel_def)
  have C: "''Delivered'' \<notin> set (columns rdf) \<or> ?d \<noteq> 0 \<longrightarrow> ?ws (?n + 1, 0) = Some (XStr ''TOTALS'')"
    unfolding ws_eq by (auto simp: Let_def ws_write_def)
  have E: "''Delivered'' \<in> set (columns rdf) \<longrightarrow>
              columns rdf ! ?d = ''Delivered'' \<and>
              ?ws (?n + 1, ?d) = Some (XFormula (''=COUNTIF('' @ col_letter ?d @ ''2:'' @ col_letter ?d @ show_nat (?n + 1) @ '',\"X\")''))"
    unfolding ws_eq using get_loc_nth[of "''Delivered''" "columns rdf"]
    by (auto simp: Let_def ws_write_def countif_formula_def)
  show ?thesis using B C D E by blast
qed

text \<open>
  C8. For the table \<open>rdf\<close> of one route with \<open>n\<close> data rows, in the day export and in a day
  sheet of the week export alike, the sheet holds the data in the 0-based rows 1..n
  (spreadsheet rows 2..n+1, the header being row 1), the TOTALS label in the row right
  below them and nothing further down. The COUNTIF formula in the Delivered column and
  the SUM formula in the Meals column read \<open>L2:L(n+1)\<close>, where \<open>L\<close> is the letter of that
  column. The sheet of the day-first variant has the same layout and the same COUNTIF
  formula, and no SUM. \<open>col_letter\<close> is standard spreadsheet lettering of the 0-based
  index: capital letters whose bijective base-26 value is the index plus one; 0 gives A,
  25 gives Z, 26 gives AA and 7 gives H.
\<close>

theorem totals_row_formulas:
  assumes "route_frame df_day route_name = Inr rdf \<or> route_week_frame df_day route_name = Inr rdf"
  shows "(route_frame df_day route_name = Inr rdf \<longrightarrow>
            to_excel_route_day df_day route_name
              = Inr \<lparr>sheet_name = safe_sheet_name route_name, cells = write_totals rdf (to_excel rdf)\<rparr>)
     \<and> (route_week_frame df_day route_name = Inr rdf \<longrightarrow>
            route_week_sheet d df_day route_name
              = Inr \<lparr>sheet_name = safe_sheet_name (DAY_SHORT d @ ''_'' @ route_name),
                     cells = write_totals rdf (to_excel rdf)\<rparr>)
     \<and> (let n = length (rows rdf); ws = write_totals rdf (to_excel rdf) in
          (\<forall>r c. 1 \<le> r \<and> r \<le> n \<and> c < length (columns rdf) \<longrightarrow>
                 ws (r, c) = Some (xcell_of ((rows rdf ! (r - 1)) (columns rdf ! c))))
        \<and> ws (n + 1, 0) = Some (XStr ''TOTALS'')
        \<and> (\<forall>r c. n + 1 < r \<longrightarrow> ws (r, c) = None)
        \<and> (''Delivered'' \<in> set (columns rdf) \<longrightarrow>
             (let L = col_letter (get_loc ''Delivered'' (columns rdf)) in
              columns rdf ! get_loc ''Delivered'' (columns rdf) = ''Delivered'' \<and>
              ws (n + 1, get_loc ''Delivered'' (columns rdf))
                = Some (XFormula (''=COUNTIF('' @ L @ ''2:'' @ L @ show_nat (n + 1) @ '',\"X\")''))))
        \<and> (''Meals'' \<in> set (columns rdf) \<longrightarrow>
             (let L = col_letter (get_loc ''Meals'' (columns rdf)) in
              columns rdf ! get_loc ''Meals'' (columns rdf) = ''Meals'' \<and>
              ws (n + 1, get_loc ''Meals'' (columns rdf))
                = Some (XFormula (''=SUM('' @ L @ ''2:'' @ L @ show_nat (n + 1) @ '')'')))))
     \<and> (\<forall>bdf. by_route_frame df_day route_name = Inr bdf \<longrightarrow>
          by_route_sheet df_day route_name
            = Inr \<lparr>sheet_name = (let s = take 31 (filter isalnum route_name) in if s = [] then ''Route'' else s),
                   cells = write_count_total bdf (to_excel bdf)\<rparr>
          \<and> (let n = length (rows bdf); ws = write_count_total bdf (to_excel bdf) in
               (\<forall>r c. 1 \<le> r \<and> r \<le> n \<and> c < length (columns bdf) \<longrightarrow>
                     ws (r, c) = Some (xcell_of ((rows bdf ! (r - 1)) (columns bdf ! c))))
             \<and> (\<forall>r c. n + 1 < r \<longrightarrow> ws (r, c) = None)
             \<and> (''Delivered'' \<notin> set (columns bdf) \<or> get_loc ''Delivered'' (columns bdf) \<noteq> 0 \<longrightarrow>
                  ws (n + 1, 0) = Some (XStr ''TOTALS''))
             \<and> (''Delivered'' \<in> set (columns bdf) \<longrightarrow>
                  (let L = col_letter (get_loc ''Delivered'' (columns bdf)) in
                   columns bdf ! get_loc ''Delivered'' (columns bdf) = ''Delivered'' \<and>
                   ws (n + 1, get_loc ''Delivered'' (columns bdf))
                     = Some (XFormula (''=COUNTIF('' @ L @ ''2:'' @ L @ show_nat (n + 1) @ '',\"X\")''))))))
     \<and> (\<forall>i. col_number (col_letter i) = i + 1 \<and> list_all is_capital (col_letter i))
     \<and> col_letter 0 = ''A'' \<and> col_letter 25 = ''Z'' \<and> col_letter 26 = ''AA'' \<and> col_letter 7 = ''H''"
proof -
  obtain cs where cs: "columns rdf = ''Delivery Route'' # cs" "distinct (''Delivery Route'' # cs)"
    using assms route_columns_shape[of df_day route_name rdf] week_columns_shape[of df_day route_name rdf]
    by blast
  have A1: "route_frame df_day route_name = Inr rdf \<longrightarrow>
            to_excel_route_day df_day route_name
              = Inr \<lparr>sheet_name = safe_sheet_name route_name, cells = write_totals rdf (to_excel rdf)\<rparr>"
    by (simp add: to_excel_route_day_def)
  have A2: "route_week_frame df_day route_name = Inr rdf \<longrightarrow>
            route_week_sheet d df_day route_name
              = Inr \<lparr>sheet_name = safe_sheet_name (DAY_SHORT d @ ''_'' @ route_name),
                     cells = write_totals rdf (to_excel rdf)\<rparr>"
    by (simp add: route_week_sheet_def)
  note W = write_totals_spec[OF cs]
  have G: "\<forall>i. col_number (col_letter i) = i + 1 \<and> list_all is_capital (col_letter i)"
    unfolding col_letter_def using col_number_loop capital_loop by simp
  have H: "col_letter 0 = ''A'' \<and> col_letter 25 = ''Z'' \<and> col_letter 26 = ''AA'' \<and> col_letter 7 = ''H''"
    by code_simp
  have V': "\<forall>bdf. by_route_frame df_day route_name = Inr bdf \<longrightarrow>
          by_route_sheet df_day route_name
            = Inr \<lparr>sheet_name = (if take 31 (filter isalnum route_name) = [] then ''Route''
                                  else take 31 (filter isalnum route_name)),
                   cells = write_count_total bdf (to_excel bdf)\<rparr>
          \<and> ((\<forall>r c. 1 \<le> r \<and> r \<le> length (rows bdf) \<and> c < length (columns bdf) \<longrightarrow>
                  write_count_total bdf (to_excel bdf) (r, c)
                    = Some (xcell_of ((rows bdf ! (r - 1)) (columns bdf ! c))))
             \<and> (\<forall>r c. length (rows bdf) + 1 < r \<longrightarrow> write_count_total bdf (to_excel bdf) (r, c) = None)
             \<and> (''Delivered'' \<notin> set (columns bdf) \<or> get_loc ''Delivered'' (columns bdf) \<noteq> 0 \<longrightarrow>
                  write_count_total bdf (to_excel bdf) (length (rows bdf) + 1, 0) = Some (XStr ''TOTALS''))
             \<and> (''Delivered'' \<in> set (columns bdf) \<longrightarrow>
                  columns bdf ! get_loc ''Delivered'' (columns bdf) = ''Delivered'' \<and>
                  write_count_total bdf (to_excel bdf) (length (rows bdf) + 1, get_loc ''Delivered'' (columns bdf))
                    = Some (XFormula (''=COUNTIF('' @ col_letter (get_loc ''Delivered'' (columns bdf)) @ ''2:''
                         @ col_letter (get_loc ''Delivered'' (columns bdf))
                         @ show_nat (length (rows bdf) + 1) @ '',\"X\")''))))"
  proof (intro allI impI conjI)
    fix bdf
    assume "by_route_frame df_day route_name = Inr bdf"
    then show "by_route_sheet df_day route_name
            = Inr \<lparr>sheet_name = (if take 31 (filter isalnum route_name) = [] then ''Route''
                                  else take 31 (filter isalnum route_name)),
                   cells = write_count_total bdf (to_excel bdf)\<rparr>"
      by (simp add: by_route_sheet_def Let_def)
  qed (use write_count_total_spec in blast)+
  show ?thesis
    unfolding Let_def by (rule conjI[OF A1 conjI[OF A2 conjI[OF W conjI[OF V' conjI[OF G H]]]]])
qed

theorem totals_row_formulas_witness:
  "(case to_excel_route_day demo_day ''A'' of
      Inl e \<Rightarrow> False
    | Inr wb \<Rightarrow> cells wb (1, 2) = Some (XStr ''X'')
              \<and> cells wb (2, 0) = Some (XStr ''TOTALS'')
              \<and> cells wb (2, 2) = Some (XFormula ''=COUNTIF(C2:C2,\"X\")'')
              \<and> cells wb (2, 1) = Some (XFormula ''=SUM(B2:B2)'')
              \<and> cells wb (3, 0) = None)"
proof -
  obtain rdf where h: "route_frame demo_day ''A'' = Inr rdf"
    by (simp add: route_frame_def demo_day_def ensure_rowid_def empty_frame_def Let_def)
  have cols: "columns rdf = [''Delivery Route'', ''Meals'', ''Delivered'']"
    using h by (auto simp add: route_frame_def demo_day_def ensure_rowid_def empty_frame_def Let_def
        export_cols_def set_column_def)
  have n: "length (rows rdf) = 1"
    using h by (auto simp add: route_frame_def demo_day_def ensure_rowid_def empty_frame_def Let_def
        export_cols_def set_column_def)
  have r: "(rows rdf ! 0) ''Delivered'' = CStr ''X''"
    using h by (auto simp add: route_frame_def demo_day_def ensure_rowid_def empty_frame_def Let_def
        export_cols_def set_column_def restrict_row_def delivered_mark_def)
  have L: "col_letter 2 = ''C''" "col_letter 1 = ''B''" "col_letter (Suc 0) = ''B''" "show_nat 2 = ''2''"
    by code_simp+
  have g: "get_loc ''Delivered'' (columns rdf) = 2" "get_loc ''Meals'' (columns rdf) = 1"
    unfolding cols by simp_all
  have n1: "length (rows rdf) + 1 = 2" and n0: "1 \<le> (1::nat) \<and> 1 \<le> length (rows rdf) \<and> 2 < length (columns rdf)"
    using n by (simp_all add: cols)
  have dl: "''Delivered'' \<in> set (columns rdf)" and ml: "''Meals'' \<in> set (columns rdf)"
    unfolding cols by simp_all
  note T = totals_row_formulas[OF disjI1[OF h], unfolded Let_def]
  have A: "to_excel_route_day demo_day ''A''
      = Inr \<lparr>sheet_name = safe_sheet_name ''A'', cells = write_totals rdf (to_excel rdf)\<rparr>"
    using T h by blast
  have B: "write_totals rdf (to_excel rdf) (1, 2) = Some (XStr ''X'')"
  proof -
    have "write_totals rdf (to_excel rdf) (1, 2) = Some (xcell_of ((rows rdf ! (1 - 1)) (columns rdf ! 2)))"
      using T n0 by blast
    then show ?thesis using r by (simp add: cols)
  qed
  have C: "write_totals rdf (to_excel rdf) (2, 0) = Some (XStr ''TOTALS'')"
    using T unfolding n1 by blast
  have D: "write_totals rdf (to_excel rdf) (3, 0) = None"
  proof -
    have "length (rows rdf) + 1 < 3" using n by simp
    then show ?thesis using T by blast
  qed
  have E: "write_totals rdf (to_excel rdf) (2, 2) = Some (XFormula ''=COUNTIF(C2:C2,\"X\")'')"
  proof -
    have "write_totals rdf (to_excel rdf) (length (rows rdf) + 1, get_loc ''Delivered'' (columns rdf))
        = Some (XFormula (''=COUNTIF('' @ col_letter (get_loc ''Delivered'' (columns rdf)) @ ''2:''
            @ col_letter (get_loc ''Delivered'' (columns rdf)) @ show_nat (length (rows rdf) + 1) @ '',\"X\")''))"
      using T dl by blast
    then show ?thesis unfolding n1 g L by simp
  qed
  have F: "write_totals rdf (to_excel rdf) (2, 1) = Some (XFormula ''=SUM(B2:B2)'')"
  proof -
    have "write_totals rdf (to_excel rdf) (length (rows rdf) + 1, get_loc ''Meals'' (columns rdf))
        = Some (XFormula (''=SUM('' @ col_letter (get_loc ''Meals'' (columns rdf)) @ ''2:''
            @ col_letter (get_loc ''Meals'' (columns rdf)) @ show_nat (length (rows rdf) + 1) @ '')''))"
      using T ml by blast
    then show ?thesis unfolding n1 g L by simp
  qed
  show ?thesis
    unfolding A using B C D E F by simp
qed

section \<open>Common facts\<close>

lemma starts_with_iff: "starts_with p s \<longleftrightarrow> (\<exists>post. s = p @ post)"
  by (induction p s rule: starts_with.induct) auto

lemma contains_iff: "contains sub s \<longleftrightarrow> (\<exists>pre post. s = pre @ sub @ post)"
proof (induction s)
  case Nil
  show ?case by auto
next
  case (Cons c cs)
  show ?case
  proof
    assume "contains sub (c # cs)"
    then consider "starts_with sub (c # cs)" | "contains sub cs" by auto
    then show "\<exists>pre post. c # cs = pre @ sub @ post"
    proof cases
      case 1
      then obtain post where "c # cs = sub @ post" using starts_with_iff by blast
      then have "c # cs = [] @ sub @ post" by simp
      then show ?thesis by blast
    next
      case 2
      then obtain pre post where "cs = pre @ sub @ post" using Cons.IH by blast
      then have "c # cs = (c # pre) @ sub @ post" by simp
      then show ?thesis by blast
    qed
  next
    assume "\<exists>pre post. c # cs = pre @ sub @ post"
    then obtain pre post where e: "c # cs = pre @ sub @ post" by blast
    show "contains sub (c # cs)"
    proof (cases pre)
      case Nil
      then have "starts_with sub (c # cs)" using e starts_with_iff by auto
      then show ?thesis by simp
    next
      case (Cons a pre')
      then have "cs = pre' @ sub @ post" using e by simp
      then have "contains sub cs" using Cons.IH by blast
      then show ?thesis by simp
    qed
  qed
qed

lemma all_days: "d \<in> set DAYS"
  by (cases d) (simp_all add: DAYS_def)

lemma astype_int_zero [simp]: "astype_int 0 = 0"
  by (simp add: astype_int_def)







section \<open>Route selection: the loop and first-seen order\<close>

lemma set_first_seen [simp]: "set (first_seen xs) = set xs"
  by (induction xs) auto

lemma distinct_first_seen [simp]: "distinct (first_seen xs)"
  by (induction xs) auto

lemma filter_first_seen: "filter P (first_seen xs) = first_seen (filter P xs)"
proof (induction xs)
  case Nil
  show ?case by simp
next
  case (Cons x xs)
  have c: "filter P (filter (\<lambda>y. y \<noteq> x) (first_seen xs)) = filter (\<lambda>y. y \<noteq> x) (first_seen (filter P xs))"
    unfolding Cons[symmetric] by (simp add: conj_commute)
  show ?case
  proof (cases "P x")
    case True
    then show ?thesis using c by simp
  next
    case False
    have "x \<notin> set (first_seen (filter P xs))" using False by simp
    then have "filter (\<lambda>y. y \<noteq> x) (first_seen (filter P xs)) = first_seen (filter P xs)"
      by (simp add: filter_id_conv) blast
    then show ?thesis using False c by simp
  qed
qed

lemma first_seen_append:
  "first_seen (xs @ ys) = first_seen xs @ filter (\<lambda>y. y \<notin> set xs) (first_seen ys)"
proof (induction xs)
  case Nil
  show ?case by simp
next
  case (Cons x xs)
  have "filter (\<lambda>y. y \<noteq> x) (filter (\<lambda>y. y \<notin> set xs) (first_seen ys))
        = filter (\<lambda>y. y \<notin> set (x # xs)) (first_seen ys)"
    by (simp add: conj_commute)
  then show ?case using Cons by simp
qed

lemma route_names_append: "route_names flag (as @ bs) = route_names flag as @ route_names flag bs"
  by (simp add: route_names_def)

lemma route_names_Cons:
  "route_names flag (r # rest) =
     (if isna r \<or> excluded flag (str_cell r) then route_names flag rest
      else str_cell r # route_names flag rest)"
  by (simp add: route_names_def)

lemma route_scan_spec:
  "route_scan flag cs (set order, order) =
     (set order \<union> set (route_names flag cs),
      order @ filter (\<lambda>x. x \<notin> set order) (first_seen (route_names flag cs)))"
proof (induction cs arbitrary: order)
  case Nil
  show ?case by (simp add: route_names_def)
next
  case (Cons r rest)
  show ?case
  proof (cases "isna r \<or> excluded flag (str_cell r)")
    case True
    then have "route_scan flag (r # rest) (set order, order) = route_scan flag rest (set order, order)"
      by (auto simp: excluded_def Let_def)
    then show ?thesis using True Cons[of order] by (simp add: route_names_Cons)
  next
    case False
    let ?rs = "str_cell r"
    let ?N = "route_names flag rest"
    have N: "route_names flag (r # rest) = ?rs # ?N" using False by (simp add: route_names_Cons)
    show ?thesis
    proof (cases "?rs \<in> set order")
      case True
      have "route_scan flag (r # rest) (set order, order) = route_scan flag rest (set order, order)"
        using False True by (auto simp: excluded_def Let_def)
      moreover have "filter (\<lambda>x. x \<notin> set order) (filter (\<lambda>y. y \<noteq> ?rs) (first_seen ?N))
                     = filter (\<lambda>x. x \<notin> set order) (first_seen ?N)"
        using True by (auto intro: filter_cong)
      ultimately show ?thesis using True Cons[of order] unfolding N by auto
    next
      case notin: False
      have "route_scan flag (r # rest) (set order, order)
            = route_scan flag rest (set (order @ [?rs]), order @ [?rs])"
        using False notin by (auto simp: excluded_def Let_def)
      moreover have "filter (\<lambda>x. x \<notin> set (order @ [?rs])) (first_seen ?N)
                     = filter (\<lambda>x. x \<notin> set order) (filter (\<lambda>y. y \<noteq> ?rs) (first_seen ?N))"
        by (auto intro: filter_cong)
      ultimately show ?thesis using notin Cons[of "order @ [?rs]"] unfolding N by auto
    qed
  qed
qed

lemma scan_days_spec:
  "scan_days ws flag ds (set order, order) =
     (set order \<union> set (route_names flag (concat (map (\<lambda>d. day_route_cells (ws d)) ds))),
      order @ filter (\<lambda>x. x \<notin> set order)
                (first_seen (route_names flag (concat (map (\<lambda>d. day_route_cells (ws d)) ds)))))"
proof (induction ds arbitrary: order)
  case Nil
  show ?case by (simp add: route_names_def)
next
  case (Cons d ds)
  let ?N1 = "route_names flag (day_route_cells (ws d))"
  let ?N2 = "route_names flag (concat (map (\<lambda>d. day_route_cells (ws d)) ds))"
  let ?o1 = "order @ filter (\<lambda>x. x \<notin> set order) (first_seen ?N1)"
  have s1: "set ?o1 = set order \<union> set ?N1" by auto
  have step: "route_scan flag (day_route_cells (ws d)) (set order, order) = (set ?o1, ?o1)"
    unfolding route_scan_spec s1 by simp
  have f: "filter (\<lambda>x. x \<notin> set ?o1) (first_seen ?N2)
           = filter (\<lambda>x. x \<notin> set order) (filter (\<lambda>y. y \<notin> set ?N1) (first_seen ?N2))"
    unfolding s1 by (auto intro: filter_cong)
  have "scan_days ws flag (d # ds) (set order, order) = scan_days ws flag ds (set ?o1, ?o1)"
    using step by simp
  also have "\<dots> = (set ?o1 \<union> set ?N2, ?o1 @ filter (\<lambda>x. x \<notin> set ?o1) (first_seen ?N2))"
    by (rule Cons)
  also have "\<dots> = (set order \<union> set (?N1 @ ?N2),
       order @ filter (\<lambda>x. x \<notin> set order) (first_seen (?N1 @ ?N2)))"
  proof -
    have "set ?o1 \<union> set ?N2 = set order \<union> set (?N1 @ ?N2)"
      unfolding s1 by auto
    moreover have "?o1 @ filter (\<lambda>x. x \<notin> set ?o1) (first_seen ?N2)
        = order @ filter (\<lambda>x. x \<notin> set order) (first_seen (?N1 @ ?N2))"
      unfolding f by (simp only: first_seen_append filter_append append_assoc)
    ultimately show ?thesis by (simp only:)
  qed
  also have "?N1 @ ?N2 = route_names flag (concat (map (\<lambda>d. day_route_cells (ws d)) (d # ds)))"
    by (simp add: route_names_append)
  finally show ?case .
qed

lemma route_names_not_excluded: "name \<in> set (route_names flag cs) \<Longrightarrow> \<not> excluded flag name"
  by (auto simp: route_names_def)

text \<open>
  C2. Route selection returns the first \<open>cap\<close> (14 in every call) of the distinct route
  names in first-seen order, over the route cells of the day tables taken Monday to
  Friday, names containing COPO in any letter case left out when the flag is set;
  the result has no repetition and at most 14 entries, \<open>copo-east\<close> is excluded, the
  routes B, A, B, C seen over two days give B, A, C, and the
  loop of \<^verbatim>\<open>route_list\<close> does the same on one table. \<open>contains\<close> is the substring test.
\<close>

theorem route_selection_first_seen:
  "filter_routes_from_week ws flag cap
     = take cap (first_seen (route_names flag
         (concat (map (\<lambda>d. day_route_cells (ws d)) [Monday, Tuesday, Wednesday, Thursday, Friday]))))
   \<and> distinct (filter_routes_from_week ws flag 14)
   \<and> length (filter_routes_from_week ws flag 14) \<le> 14
   \<and> (\<forall>name \<in> set (filter_routes_from_week ws True cap). \<not> contains ''COPO'' (upper name))
   \<and> excluded True ''copo-east''
   \<and> filter_routes_from_week example_week False 14 = [''B'', ''A'', ''C'']
   \<and> (excluded flag name \<longleftrightarrow> flag \<and> (\<exists>pre post. upper name = pre @ ''COPO'' @ post))
   \<and> route_list flag df
       = (if ''Delivery Route'' \<in> set (columns df)
          then Inr (take 14 (first_seen (route_names flag (map (\<lambda>r. r ''Delivery Route'') (rows df)))))
          else Inl (KeyError ''Delivery Route''))"
proof -
  let ?cells = "concat (map (\<lambda>d. day_route_cells (ws d)) [Monday, Tuesday, Wednesday, Thursday, Friday])"
  have eq: "\<And>f c. filter_routes_from_week ws f c = take c (first_seen (route_names f ?cells))"
    using scan_days_spec[of ws _ DAYS "[]"]
    by (simp add: filter_routes_from_week_def DAYS_def)
  have A: "filter_routes_from_week ws flag cap = take cap (first_seen (route_names flag ?cells))"
    by (rule eq)
  have B: "distinct (filter_routes_from_week ws flag 14)"
    unfolding eq by (rule distinct_take) simp
  have C: "length (filter_routes_from_week ws flag 14) \<le> 14"
    unfolding eq by simp
  have D: "\<forall>name \<in> set (filter_routes_from_week ws True cap). \<not> contains ''COPO'' (upper name)"
  proof
    fix name
    assume "name \<in> set (filter_routes_from_week ws True cap)"
    then have "name \<in> set (first_seen (route_names True ?cells))"
      unfolding eq by (rule in_set_takeD)
    then have "\<not> excluded True name" using route_names_not_excluded by simp
    then show "\<not> contains ''COPO'' (upper name)" by (simp add: excluded_def)
  qed
  have E: "excluded True ''copo-east''"
    by code_simp
  have H: "filter_routes_from_week example_week False 14 = [''B'', ''A'', ''C'']"
    by code_simp
  have F: "excluded flag name \<longleftrightarrow> flag \<and> (\<exists>pre post. upper name = pre @ ''COPO'' @ post)"
    unfolding excluded_def contains_iff by simp
  have G: "route_list flag df
       = (if ''Delivery Route'' \<in> set (columns df)
          then Inr (take 14 (first_seen (route_names flag (map (\<lambda>r. r ''Delivery Route'') (rows df)))))
          else Inl (KeyError ''Delivery Route''))"
    using route_scan_spec[of flag "map (\<lambda>r. r ''Delivery Route'') (rows df)" "[]"]
    by (simp add: route_list_def)
  show ?thesis using A B C D E F G H by blast
qed

theorem route_selection_first_seen_witness:
  "filter_routes_from_week demo_week False 14 = [''B'', ''A'', ''copo-east'', ''C'']
   \<and> filter_routes_from_week demo_week True 14 = [''B'', ''A'', ''C'']
   \<and> \<not> contains ''COPO'' (upper ''B'')"
proof -
  have s1: "take 14 (first_seen (route_names False
         (concat (map (\<lambda>d. day_route_cells (demo_week d)) [Monday, Tuesday, Wednesday, Thursday, Friday]))))
       = [''B'', ''A'', ''copo-east'', ''C'']"
    by code_simp
  have s2: "take 14 (first_seen (route_names True
         (concat (map (\<lambda>d. day_route_cells (demo_week d)) [Monday, Tuesday, Wednesday, Thursday, Friday]))))
       = [''B'', ''A'', ''C'']"
    by code_simp
  have a: "filter_routes_from_week demo_week False 14 = [''B'', ''A'', ''copo-east'', ''C'']"
    using route_selection_first_seen[of demo_week False 14] s1 by simp
  have b: "filter_routes_from_week demo_week True 14 = [''B'', ''A'', ''C'']"
    using route_selection_first_seen[of demo_week True 14] s2 by simp
  have "''B'' \<in> set (filter_routes_from_week demo_week True 14)"
    unfolding b by simp
  then have c: "\<not> contains ''COPO'' (upper ''B'')"
    using route_selection_first_seen[of demo_week True 14] by blast
  show ?thesis using a b c by blast
qed

section \<open>Reading a report: the derived columns row by row\<close>


lemma set_column_rows [simp]: "rows (set_column c f df) = map (\<lambda>r. r(c := f r)) (rows df)"
  by (simp add: set_column_def)

lemma set_column_columns [simp]: "set (columns (set_column c f df)) = insert c (set (columns df))"
  by (auto simp: set_column_def)

lemma select_present:
  "select_columns (filter (\<lambda>c. c \<in> set (columns df)) ks) df
     = Inr \<lparr>columns = filter (\<lambda>c. c \<in> set (columns df)) ks,
            rows = map (restrict_row (filter (\<lambda>c. c \<in> set (columns df)) ks)) (rows df)\<rparr>"
proof -
  have "filter (\<lambda>c. c \<notin> set (columns df)) (filter (\<lambda>c. c \<in> set (columns df)) ks) = []"
    by (induction ks) auto
  then show ?thesis by (simp add: select_columns_def)
qed























lemma select_dropna:
  "select_columns (filter (\<lambda>c. c \<in> set (columns d)) ks) (dropna_all S d)
     = Inr \<lparr>columns = filter (\<lambda>c. c \<in> set (columns d)) ks,
            rows = map (restrict_row (filter (\<lambda>c. c \<in> set (columns d)) ks)) (rows (dropna_all S d))\<rparr>"
proof -
  have c: "columns (dropna_all S d) = columns d" by (simp add: dropna_all_def)
  show ?thesis using select_present[of "dropna_all S d" ks] unfolding c .
qed

lemma load_report_found:
  assumes "xf ''Report'' = Some g" and "find_header (take 25 g) 0 = Inr (Some idx)"
  shows "\<exists>S. load_report xf
           = Inr \<lparr>columns = filter (\<lambda>c. c \<in> set (columns (read_excel_header g idx))) EXPECTED_COLS,
                  rows = map (restrict_row (filter (\<lambda>c. c \<in> set (columns (read_excel_header g idx))) EXPECTED_COLS))
                           (rows (dropna_all S (read_excel_header g idx)))\<rparr>"
proof -
  have "load_report xf
      = select_columns (filter (\<lambda>c. c \<in> set (columns (read_excel_header g idx))) EXPECTED_COLS)
          (dropna_all (filter (\<lambda>c. c \<in> set (columns (read_excel_header g idx)))
                         [''Delivery Route'', ''Client ID'', ''Last Name'', ''First Name''])
             (read_excel_header g idx))"
    using assms by (simp add: load_report_def Let_def)
  then show ?thesis unfolding select_dropna by blast
qed



lemma find_header_no_match:
  "find_header g i = Inr None \<longleftrightarrow>
     (\<forall>r \<in> set g. \<exists>c cs. r = c # cs \<and> strip (str_cell c) \<noteq> ''Delivery Route'')"
  by (induction g i rule: find_header.induct) auto

lemma find_header_error: "find_header g i = Inl e \<Longrightarrow> e = IndexError"
  by (induction g i rule: find_header.induct) (auto split: if_splits)

lemma insert_column_error:
  "insert_column loc c f df = Inl e \<Longrightarrow> e = ValueError \<or> e = IndexError"
  by (auto simp: insert_column_def split: if_splits)

lemma derive_error:
  assumes "derive parse dflt df = Inl e"
  shows "e = ValueError \<or> e = IndexError \<or> e = AttributeError"
proof (cases "add_client_name df")
  case (Inl e1)
  then have "e = e1" using assms by (simp add: derive_def)
  moreover have "e1 = ValueError \<or> e1 = IndexError"
    using Inl insert_column_error unfolding add_client_name_def by (auto split: if_splits)
  ultimately show ?thesis by blast
next
  case (Inr df1)
  show ?thesis
  proof (cases "add_address df1")
    case (Inl e2)
    then have "e = e2" using assms Inr by (simp add: derive_def)
    moreover have "e2 = ValueError \<or> e2 = IndexError"
      using Inl unfolding add_address_def by (auto split: list.splits dest: insert_column_error)
    ultimately show ?thesis by blast
  next
    case r2: (Inr df2)
    show ?thesis
    proof (cases "add_phone df2")
      case (Inl e3)
      then have "e = e3" using assms Inr r2 by (simp add: derive_def)
      moreover have "e3 = ValueError \<or> e3 = IndexError \<or> e3 = AttributeError"
        using Inl unfolding add_phone_def by (auto split: if_splits dest: insert_column_error)
      ultimately show ?thesis by blast
    next
      case r3: (Inr df3)
      have "derive parse dflt df
            = select_columns (filter (\<lambda>c. c \<in> set (columns (set_column ''Delivered'' (\<lambda>r. CBool dflt) (add_meals parse df3)))) KEEP_COLS)
                (set_column ''Delivered'' (\<lambda>r. CBool dflt) (add_meals parse df3))"
        using Inr r2 r3 by (simp add: derive_def Let_def)
      then show ?thesis using assms unfolding select_present by simp
    qed
  qed
qed

lemma read_report_header_not_found:
  "read_report parse dflt xf = Inl HeaderNotFound \<longleftrightarrow>
     (\<exists>g. xf ''Report'' = Some g \<and>
          (\<forall>r \<in> set (take 25 g). \<exists>c cs. r = c # cs \<and> strip (str_cell c) \<noteq> ''Delivery Route''))"
proof -
  have a: "read_report parse dflt xf = Inl HeaderNotFound \<longleftrightarrow> load_report xf = Inl HeaderNotFound"
  proof (cases "load_report xf")
    case (Inl e)
    then show ?thesis by (simp add: read_report_def)
  next
    case (Inr df)
    then have "read_report parse dflt xf = derive parse dflt df" by (simp add: read_report_def)
    then show ?thesis using Inr derive_error[of parse dflt df HeaderNotFound] by auto
  qed
  have b: "load_report xf = Inl HeaderNotFound \<longleftrightarrow>
             (\<exists>g. xf ''Report'' = Some g \<and> find_header (take 25 g) 0 = Inr None)"
  proof (cases "xf ''Report''")
    case None
    then show ?thesis by (simp add: load_report_def)
  next
    case (Some g)
    show ?thesis
    proof (cases "find_header (take 25 g) 0")
      case (Inl e)
      then have "e = IndexError" by (rule find_header_error)
      then show ?thesis using Some Inl by (simp add: load_report_def)
    next
      case (Inr r)
      show ?thesis
      proof (cases r)
        case None
        then show ?thesis using Some Inr by (simp add: load_report_def)
      next
        case (Some idx)
        have "find_header (take 25 g) 0 = Inr (Some idx)" using Inr Some by simp
        then have "load_report xf \<noteq> Inl HeaderNotFound"
          using load_report_found[of xf g idx] \<open>xf ''Report'' = Some g\<close> by auto
        then show ?thesis using \<open>xf ''Report'' = Some g\<close> Inr Some by simp
      qed
    qed
  qed
  show ?thesis unfolding a b find_header_no_match by simp
qed


text \<open>The example report is read without error.\<close>

lemma good_file_reads: "\<not> isl (read_report int_literal True good_file)"
  by code_simp




section \<open>Header not found, file by file\<close>

lemma upload_days_state:
  "week_state (upload_days parse dflt uploads ds st) d =
     (if d \<in> set ds
      then (case uploads d of
              None \<Rightarrow> week_state st d
            | Some f \<Rightarrow> (case read_report parse dflt f of
                           Inl e \<Rightarrow> week_state st d
                         | Inr df \<Rightarrow> Some (ensure_rowid df)))
      else week_state st d)"
proof (induction ds arbitrary: st)
  case Nil
  show ?case by simp
next
  case (Cons a ds)
  show ?case
    unfolding upload_days.simps Cons
    by (auto split: option.splits sum.splits)
qed

lemma upload_days_notices:
  "notices (upload_days parse dflt uploads ds st) =
     notices st @ concat (map (\<lambda>d. case uploads d of
                                      None \<Rightarrow> []
                                    | Some f \<Rightarrow> (case read_report parse dflt f of
                                                   Inl e \<Rightarrow> [UploadError d e]
                                                 | Inr df \<Rightarrow> [])) ds)"
proof (induction ds arbitrary: st)
  case Nil
  show ?case by simp
next
  case (Cons a ds)
  show ?case
    unfolding upload_days.simps Cons
    by (auto split: option.splits sum.splits)
qed

text \<open>
  C3, as the code has it. \<^verbatim>\<open>read_report\<close> raises the header error exactly when the
  workbook has a Report sheet and none of its first 25 rows has, in column 0, a cell whose
  text is \<^verbatim>\<open>Delivery Route\<close> once surrounding blanks are stripped. In the upload loop a
  day whose file fails keeps the table it had and adds one error notice; every other day
  is processed as if the failure had not happened.
\<close>

theorem header_not_found_per_file:
  "(read_report parse dflt xf = Inl HeaderNotFound \<longleftrightarrow>
      (\<exists>g. xf ''Report'' = Some g \<and>
           (\<forall>r \<in> set (take 25 g). \<exists>c cs. r = c # cs \<and> strip (str_cell c) \<noteq> ''Delivery Route'')))
   \<and> (\<forall>d. week_state (upload_loop parse dflt uploads st) d =
            (case uploads d of
               None \<Rightarrow> week_state st d
             | Some f \<Rightarrow> (case read_report parse dflt f of
                            Inl e \<Rightarrow> week_state st d
                          | Inr df \<Rightarrow> Some (ensure_rowid df))))
   \<and> notices (upload_loop parse dflt uploads st) =
       notices st @ concat (map (\<lambda>d. case uploads d of
                                        None \<Rightarrow> []
                                      | Some f \<Rightarrow> (case read_report parse dflt f of
                                                     Inl e \<Rightarrow> [UploadError d e]
                                                   | Inr df \<Rightarrow> [])) DAYS)"
  unfolding upload_loop_def upload_days_state upload_days_notices
  using read_report_header_not_found[of parse dflt xf] all_days by simp

theorem header_not_found_per_file_witness:
  "read_report int_literal True no_header_file = Inl HeaderNotFound
   \<and> week_state (upload_loop int_literal True demo_uploads demo_session) Monday = Some demo_day
   \<and> week_state (upload_loop int_literal True demo_uploads demo_session) Tuesday \<noteq> None
   \<and> notices (upload_loop int_literal True demo_uploads demo_session) = [UploadError Monday HeaderNotFound]"
proof -
  note T = header_not_found_per_file[of int_literal True no_header_file demo_uploads demo_session]
  have s: "strip ''Route'' = ''Route''" "strip ''R1'' = ''R1''"
    by (simp_all add: strip_def is_space_def)
  have "\<exists>g. no_header_file ''Report'' = Some g \<and>
           (\<forall>r \<in> set (take 25 g). \<exists>c cs. r = c # cs \<and> strip (str_cell c) \<noteq> ''Delivery Route'')"
    by (simp add: no_header_file_def s)
  then have a: "read_report int_literal True no_header_file = Inl HeaderNotFound"
    using T by blast
  obtain df where g: "read_report int_literal True good_file = Inr df"
    using good_file_reads by (cases "read_report int_literal True good_file") simp_all
  have b: "week_state (upload_loop int_literal True demo_uploads demo_session) Monday = Some demo_day"
    using T a by (simp add: demo_uploads_def demo_session_def)
  have c: "week_state (upload_loop int_literal True demo_uploads demo_session) Tuesday \<noteq> None"
    using T g by (simp add: demo_uploads_def demo_session_def)
  have d: "notices (upload_loop int_literal True demo_uploads demo_session) = [UploadError Monday HeaderNotFound]"
    using T a g by (simp add: demo_uploads_def demo_session_def DAYS_def)
  show ?thesis using a b c d by blast
qed

theorem header_exactness_counterexample:
  "length (the (padded_file ''Report'')) = 2
   \<and> hd (the (padded_file ''Report'') ! 0) \<noteq> CStr ''Delivery Route''
   \<and> hd (the (padded_file ''Report'') ! 1) \<noteq> CStr ''Delivery Route''
   \<and> \<not> isl (read_report int_literal True padded_file)"
  by code_simp

section \<open>Meal counts\<close>




section \<open>Phone and address\<close>

















text \<open>
  C5 fails on the code. The first data row of the example report has an empty Address
  Line 1 and \<open>Apt 4\<close> as Address Line 2: its Address is \<open>nan Apt 4\<close>, the blank first
  segment is not omitted. Of the second row, whose Address Line 2 is empty, the Address
  is Address Line 1 alone.
\<close>

theorem address_blank_line1_evaluated:
  "(rows (projr (read_report int_literal True good_file)) ! 0) ''Address'' = CStr ''nan Apt 4''
   \<and> (rows (projr (read_report int_literal True good_file)) ! 1) ''Address'' = CStr ''12 Main St''"
  by code_simp

section \<open>Snapshot restore\<close>

lemma set_unique_keys_aux:
  "set (foldl (\<lambda>acc k. if k \<in> set acc then acc else acc @ [k]) a ks) = set a \<union> set ks"
  by (induction ks arbitrary: a) auto

lemma set_unique_keys [simp]: "set (unique_keys ks) = set ks"
  by (simp add: unique_keys_def set_unique_keys_aux)

lemma from_records_columns: "c \<in> set (columns (from_records recs)) \<longleftrightarrow> has_key c recs"
  by (auto simp: from_records_def has_key_def list_ex_iff)

lemma from_records_rows [simp]: "rows (from_records recs) = map record_row recs"
  by (simp add: from_records_def)

lemma ensure_rowid_length [simp]: "length (rows (ensure_rowid df)) = length (rows df)"
  by (simp add: ensure_rowid_def)

lemma ensure_rowid_cell:
  "i < length (rows df) \<Longrightarrow> c \<noteq> ''RowID'' \<Longrightarrow> (rows (ensure_rowid df) ! i) c = (rows df ! i) c"
  by (simp add: ensure_rowid_def nth_enumerate_eq)


lemma ensure_rowid_columns:
  "c \<noteq> ''RowID'' \<Longrightarrow> c \<in> set (columns (ensure_rowid df)) \<longleftrightarrow> c \<in> set (columns df)"
  by (simp add: ensure_rowid_def)

lemma restore_day_length [simp]: "length (rows (restore_day parse dflt recs)) = length recs"
  by (simp add: restore_day_def Let_def)


lemma restore_day_meals_column:
  "''Meals'' \<in> set (columns (restore_day parse dflt recs)) \<longleftrightarrow> has_key ''Meals'' recs"
  by (simp add: restore_day_def Let_def ensure_rowid_columns from_records_columns)


lemma restore_day_delivered:
  assumes "i < length recs"
  shows "(rows (restore_day parse dflt recs) ! i) ''Delivered'' =
           (if has_key ''Delivered'' recs then record_row (recs ! i) ''Delivered'' else CBool dflt)"
proof -
  have c: "''Delivered'' \<in> set (columns (ensure_rowid (from_records recs))) \<longleftrightarrow> has_key ''Delivered'' recs"
    by (simp add: ensure_rowid_columns from_records_columns)
  have "(rows (ensure_rowid (from_records recs)) ! i) ''Delivered'' = record_row (recs ! i) ''Delivered''"
    using assms ensure_rowid_cell[of i "from_records recs" "''Delivered''"] by simp
  then show ?thesis using assms c by (simp add: restore_day_def Let_def)
qed


lemma build_state_step:
  "build_state parse dflt raw (d # ds) ns =
     (if day_fails (raw (day_name d)) then Inl TypeError
      else build_state parse dflt raw ds (ns(d := day_table parse dflt (raw (day_name d)))))"
  by (cases "raw (day_name d)" rule: day_fails.cases) simp_all

lemma build_state_fails:
  "isl (build_state parse dflt raw ds ns) \<longleftrightarrow> list_ex (\<lambda>d. day_fails (raw (day_name d))) ds"
proof (induction ds arbitrary: ns)
  case Nil
  show ?case by simp
next
  case (Cons d ds)
  show ?case unfolding build_state_step using Cons by simp
qed

lemma build_state_error: "build_state parse dflt raw ds ns = Inl e \<Longrightarrow> e = TypeError"
proof (induction ds arbitrary: ns)
  case Nil
  then show ?case by simp
next
  case (Cons d ds)
  then show ?case unfolding build_state_step by (auto split: if_splits)
qed

lemma build_state_result:
  "build_state parse dflt raw ds ns = Inr ns' \<Longrightarrow>
     ns' d = (if d \<in> set ds then day_table parse dflt (raw (day_name d)) else ns d)"
proof (induction ds arbitrary: ns)
  case Nil
  then show ?case by simp
next
  case (Cons a ds)
  from Cons.prems have ok: "\<not> day_fails (raw (day_name a))"
    and r: "build_state parse dflt raw ds (ns(a := day_table parse dflt (raw (day_name a)))) = Inr ns'"
    unfolding build_state_step by (auto split: if_splits)
  show ?case using Cons.IH[OF r] by auto
qed

lemma load_state_result:
  assumes "load_state parse dflt content = Inr ns"
  shows "\<exists>kvs. content = Some (JObject kvs) \<and> (\<forall>d. ns d = day_table parse dflt (map_of kvs (day_name d)))"
proof -
  obtain kvs where c: "content = Some (JObject kvs)"
    using assms unfolding load_state_def by (auto split: option.splits jdoc.splits)
  then have "build_state parse dflt (map_of kvs) DAYS empty_week_state = Inr ns"
    using assms by (simp add: load_state_def)
  then have "\<forall>d. ns d = day_table parse dflt (map_of kvs (day_name d))"
    using build_state_result all_days by fastforce
  then show ?thesis using c by blast
qed

lemma load_state_fails:
  "isl (load_state parse dflt content) \<longleftrightarrow>
     (case content of
        None \<Rightarrow> True
      | Some JNotObject \<Rightarrow> True
      | Some (JObject kvs) \<Rightarrow> list_ex (\<lambda>d. day_fails (map_of kvs (day_name d))) DAYS)"
  unfolding load_state_def by (auto simp: build_state_fails split: option.splits jdoc.splits)






section \<open>The delivered mark\<close>

lemma cell_json_roundtrip [simp]: "cell_of_json (json_of_cell x) = x"
  by (cases x) simp_all

lemma map_of_keyed: "c \<in> set cols \<Longrightarrow> map_of (map (\<lambda>k. (k, f k)) cols) c = Some (f c)"
  by (induction cols) auto

lemma to_dict_cell:
  assumes "i < length (rows df)" and "c \<in> set (columns df)"
  shows "map_of (to_dict_records df ! i) c = Some (json_of_cell ((rows df ! i) c))"
    and "record_row (to_dict_records df ! i) c = (rows df ! i) c"
proof -
  show m: "map_of (to_dict_records df ! i) c = Some (json_of_cell ((rows df ! i) c))"
    using assms by (simp add: to_dict_records_def map_of_keyed)
  show "record_row (to_dict_records df ! i) c = (rows df ! i) c"
    unfolding record_row_def m by simp
qed

lemma to_dict_length [simp]: "length (to_dict_records df) = length (rows df)"
  by (simp add: to_dict_records_def)

lemma has_key_to_dict:
  assumes "i < length (rows df)" and "c \<in> set (columns df)"
  shows "has_key c (to_dict_records df)"
proof -
  have "to_dict_records df ! i \<in> set (to_dict_records df)"
    using nth_mem[of i "to_dict_records df"] assms(1) by simp
  moreover have "c \<in> set (map fst (to_dict_records df ! i))"
    using assms by (simp add: to_dict_records_def comp_def)
  ultimately show ?thesis unfolding has_key_def list_ex_iff by blast
qed

lemma saved_day:
  "\<exists>kvs. save_week_state ws = JObject kvs
        \<and> (\<forall>d. map_of kvs (day_name d)
                 = Some (case ws d of None \<Rightarrow> JNull | Some df \<Rightarrow> JRecords (to_dict_records df)))"
proof -
  let ?kvs = "map (\<lambda>d. (day_name d, case ws d of None \<Rightarrow> JNull
                                         | Some df \<Rightarrow> JRecords (to_dict_records df))) DAYS"
  have "map_of ?kvs (day_name d)
          = Some (case ws d of None \<Rightarrow> JNull | Some df \<Rightarrow> JRecords (to_dict_records df))" for d
    by (cases d) (simp_all add: DAYS_def)
  then show ?thesis unfolding save_week_state_def by blast
qed

lemma saved_day_loads:
  assumes "ws d = Some df"
  shows "\<exists>ns. load_state parse dflt (Some (save_week_state ws)) = Inr ns
            \<and> ns d = Some (restore_day parse dflt (to_dict_records df))"
proof -
  obtain kvs where k: "save_week_state ws = JObject kvs"
    and l: "\<And>d. map_of kvs (day_name d)
                 = Some (case ws d of None \<Rightarrow> JNull | Some df \<Rightarrow> JRecords (to_dict_records df))"
    using saved_day[of ws] by blast
  have nf: "\<not> day_fails (map_of kvs (day_name d))" for d
    unfolding l by (cases "ws d") simp_all
  have "\<not> isl (load_state parse dflt (Some (save_week_state ws)))"
    unfolding load_state_fails k using nf by (simp add: list_ex_iff)
  then obtain ns where ns: "load_state parse dflt (Some (save_week_state ws)) = Inr ns"
    by (cases "load_state parse dflt (Some (save_week_state ws))") simp_all
  have "ns d = day_table parse dflt (map_of kvs (day_name d))"
    using load_state_result[OF ns] k by simp
  then have "ns d = Some (restore_day parse dflt (to_dict_records df))"
    unfolding l using assms by simp
  then show ?thesis using ns by blast
qed

lemma route_frame_rows:
  assumes "route_frame df route = Inr rdf" and "''Delivered'' \<in> set (columns df)"
  shows "length (rows rdf)
           = length (filter (\<lambda>r. str_cell (r ''Delivery Route'') = route) (rows (ensure_rowid df)))"
    and "j < length (rows rdf) \<Longrightarrow>
           (rows rdf ! j) ''Delivered''
             = delivered_mark ((filter (\<lambda>r. str_cell (r ''Delivery Route'') = route)
                                  (rows (ensure_rowid df)) ! j) ''Delivered'')"
proof -
  let ?df = "ensure_rowid df"
  let ?cols = "filter (\<lambda>c. c \<in> set (columns ?df)) export_cols"
  let ?sel = "filter (\<lambda>r. str_cell (r ''Delivery Route'') = route) (rows ?df)"
  have dr: "''Delivery Route'' \<in> set (columns ?df)"
    using assms(1) unfolding route_frame_def Let_def by (simp split: if_splits)
  have dc: "''Delivered'' \<in> set ?cols"
    using assms(2) by (simp add: ensure_rowid_columns export_cols_def)
  have e: "rdf = set_column ''Delivered'' (\<lambda>r. delivered_mark (r ''Delivered''))
                   \<lparr>columns = ?cols, rows = map (restrict_row ?cols) ?sel\<rparr>"
    using assms(1) dr dc unfolding route_frame_def Let_def by simp
  show "length (rows rdf) = length ?sel" unfolding e by simp
  show "(rows rdf ! j) ''Delivered'' = delivered_mark ((?sel ! j) ''Delivered'')"
    if "j < length (rows rdf)"
  proof -
    have "j < length ?sel" using that unfolding e by simp
    then show ?thesis unfolding e using dc by (simp add: restrict_row_def)
  qed
qed

lemma ensure_rowid_ref_spec:
  assumes "objs h a = Some df" and "a < next_ref h"
  shows "\<exists>a1 h1. ensure_rowid_ref a h = (a1, h1) \<and> objs h1 a1 = Some (ensure_rowid df)
           \<and> objs h1 a = Some df \<and> a < next_ref h1"
proof (cases "empty_frame df \<or> ''RowID'' \<in> set (columns df)")
  case True
  then have "ensure_rowid_ref a h = (a, h)" and "ensure_rowid df = df"
    using assms(1) by (auto simp: ensure_rowid_ref_def ensure_rowid_def)
  then show ?thesis using assms by simp
next
  case False
  let ?b = "next_ref h"
  let ?h1 = "h\<lparr>next_ref := Suc ?b, objs := (objs h)(?b \<mapsto> ensure_rowid df)\<rparr>"
  have ne: "a \<noteq> ?b" using assms(2) by simp
  have "ensure_rowid_ref a h = (?b, ?h1)"
    using assms(1) False by (simp add: ensure_rowid_ref_def alloc_def)
  moreover have "objs ?h1 ?b = Some (ensure_rowid df)" by simp
  moreover have "objs ?h1 a = Some df" using assms(1) ne by simp
  moreover have "a < next_ref ?h1" using assms(2) by simp
  ultimately show ?thesis by blast
qed

lemma export_leaves_table:
  assumes "objs h a = Some df" and "a < next_ref h"
  shows "fst (to_excel_route_day_ref a route h) = to_excel_route_day df route"
    and "objs (snd (to_excel_route_day_ref a route h)) a = Some df"
proof -
  obtain a1 h1 where s: "ensure_rowid_ref a h = (a1, h1)" "objs h1 a1 = Some (ensure_rowid df)"
      "objs h1 a = Some df" "a < next_ref h1"
    using ensure_rowid_ref_spec[OF assms] by blast
  let ?df = "ensure_rowid df"
  let ?cols = "filter (\<lambda>c. c \<in> set (columns ?df)) export_cols"
  let ?base = "\<lparr>columns = ?cols,
                rows = map (restrict_row ?cols)
                         (filter (\<lambda>r. str_cell (r ''Delivery Route'') = route) (rows ?df))\<rparr>"
  let ?rdf = "if ''Delivered'' \<in> set ?cols
              then set_column ''Delivered'' (\<lambda>r. delivered_mark (r ''Delivered'')) ?base else ?base"
  let ?a2 = "next_ref h1"
  let ?h2 = "h1\<lparr>next_ref := Suc ?a2, objs := (objs h1)(?a2 \<mapsto> ?base)\<rparr>"
  let ?h3 = "if ''Delivered'' \<in> set ?cols
             then assign_column ?a2 ''Delivered'' (\<lambda>r. delivered_mark (r ''Delivered'')) ?h2 else ?h2"
  have ne: "a \<noteq> ?a2" using s(4) by simp
  have o3: "objs ?h3 ?a2 = Some ?rdf" by (simp add: assign_column_def)
  have o3a: "objs ?h3 a = Some df" using s(3) ne by (simp add: assign_column_def)
  show "fst (to_excel_route_day_ref a route h) = to_excel_route_day df route"
  proof (cases "''Delivery Route'' \<in> set (columns ?df)")
    case False
    then show ?thesis
      using s by (simp add: to_excel_route_day_ref_def to_excel_route_day_def route_frame_def Let_def)
  next
    case True
    have r: "route_frame df route = Inr ?rdf"
      using True by (simp add: route_frame_def Let_def)
    have "to_excel_route_day_ref a route h
            = (Inr \<lparr>sheet_name = safe_sheet_name route, cells = write_totals ?rdf (to_excel ?rdf)\<rparr>, ?h3)"
      unfolding to_excel_route_day_ref_def s(1) using s(2) True o3
      by (simp add: Let_def alloc_def)
    then show ?thesis using r by (simp add: to_excel_route_day_def)
  qed
  show "objs (snd (to_excel_route_day_ref a route h)) a = Some df"
  proof (cases "''Delivery Route'' \<in> set (columns ?df)")
    case False
    then show ?thesis
      using s by (simp add: to_excel_route_day_ref_def Let_def)
  next
    case True
    have "to_excel_route_day_ref a route h
            = (Inr \<lparr>sheet_name = safe_sheet_name route, cells = write_totals ?rdf (to_excel ?rdf)\<rparr>, ?h3)"
      unfolding to_excel_route_day_ref_def s(1) using s(2) True o3
      by (simp add: Let_def alloc_def)
    then show ?thesis using o3a by simp
  qed
qed

lemma restored_delivered:
  assumes "''Delivered'' \<in> set (columns df)" and "i < length (rows df)"
  shows "(rows (restore_day parse dflt (to_dict_records df)) ! i) ''Delivered'' = (rows df ! i) ''Delivered''"
proof -
  have k: "has_key ''Delivered'' (to_dict_records df)"
    by (rule has_key_to_dict[OF assms(2,1)])
  have "(rows (restore_day parse dflt (to_dict_records df)) ! i) ''Delivered''
          = record_row (to_dict_records df ! i) ''Delivered''"
    using restore_day_delivered[of i "to_dict_records df" parse dflt] assms(2) k by simp
  then show ?thesis using to_dict_cell(2)[OF assms(2,1)] by simp
qed

text \<open>
  C9. The export renders a delivered flag as \<open>X\<close> when it is true and as the empty text
  when it is false: so reads the Delivered cell of every exported row. The conversion is
  made on a copy: the table that was passed to the export is the same afterwards. The
  snapshot stores the boolean itself, and saving the week and loading it again gives the
  same boolean in the same row.
\<close>

theorem delivered_mark_export_only:
  "delivered_mark (CBool True) = CStr ''X'' \<and> delivered_mark (CBool False) = CStr []
   \<and> (route_frame df route = Inr rdf \<and> ''Delivered'' \<in> set (columns df) \<longrightarrow>
        length (rows rdf)
          = length (filter (\<lambda>r. str_cell (r ''Delivery Route'') = route) (rows (ensure_rowid df)))
        \<and> (\<forall>j < length (rows rdf).
              (rows rdf ! j) ''Delivered''
                = delivered_mark ((filter (\<lambda>r. str_cell (r ''Delivery Route'') = route)
                                     (rows (ensure_rowid df)) ! j) ''Delivered'')))
   \<and> (objs h a = Some df \<and> a < next_ref h \<longrightarrow>
        fst (to_excel_route_day_ref a route h) = to_excel_route_day df route
        \<and> objs (snd (to_excel_route_day_ref a route h)) a = Some df)
   \<and> (ws d = Some df \<and> ''Delivered'' \<in> set (columns df) \<and> i < length (rows df)
        \<and> (rows df ! i) ''Delivered'' = CBool b \<longrightarrow>
        map_of (to_dict_records df ! i) ''Delivered'' = Some (JBool b)
        \<and> (\<exists>df'. week_state (load_week_json parse dflt (Some (Some (save_week_state ws))) st) d = Some df'
               \<and> length (rows df') = length (rows df)
               \<and> (rows df' ! i) ''Delivered'' = CBool b))"
proof -
  have A: "delivered_mark (CBool True) = CStr ''X'' \<and> delivered_mark (CBool False) = CStr []"
    by (simp add: delivered_mark_def)
  have B: "route_frame df route = Inr rdf \<and> ''Delivered'' \<in> set (columns df) \<longrightarrow>
        length (rows rdf)
          = length (filter (\<lambda>r. str_cell (r ''Delivery Route'') = route) (rows (ensure_rowid df)))
        \<and> (\<forall>j < length (rows rdf).
              (rows rdf ! j) ''Delivered''
                = delivered_mark ((filter (\<lambda>r. str_cell (r ''Delivery Route'') = route)
                                     (rows (ensure_rowid df)) ! j) ''Delivered''))"
    using route_frame_rows[of df route rdf] by blast
  have C: "objs h a = Some df \<and> a < next_ref h \<longrightarrow>
        fst (to_excel_route_day_ref a route h) = to_excel_route_day df route
        \<and> objs (snd (to_excel_route_day_ref a route h)) a = Some df"
    using export_leaves_table[of h a df route] by blast
  have D: "map_of (to_dict_records df ! i) ''Delivered'' = Some (JBool b)
        \<and> (\<exists>df'. week_state (load_week_json parse dflt (Some (Some (save_week_state ws))) st) d = Some df'
               \<and> length (rows df') = length (rows df)
               \<and> (rows df' ! i) ''Delivered'' = CBool b)"
    if h: "ws d = Some df" "''Delivered'' \<in> set (columns df)" "i < length (rows df)"
      "(rows df ! i) ''Delivered'' = CBool b"
  proof -
    have m: "map_of (to_dict_records df ! i) ''Delivered'' = Some (JBool b)"
      using to_dict_cell(1)[OF h(3,2)] h(4) by simp
    obtain ns where ns: "load_state parse dflt (Some (save_week_state ws)) = Inr ns"
      and nd: "ns d = Some (restore_day parse dflt (to_dict_records df))"
      using saved_day_loads[of ws d df parse dflt] h(1) by blast
    have w: "week_state (load_week_json parse dflt (Some (Some (save_week_state ws))) st) d
               = Some (restore_day parse dflt (to_dict_records df))"
      using ns nd by (simp add: load_week_json_def)
    have "length (rows (restore_day parse dflt (to_dict_records df))) = length (rows df)"
      by simp
    moreover have "(rows (restore_day parse dflt (to_dict_records df)) ! i) ''Delivered'' = CBool b"
      using restored_delivered[OF h(2,3)] h(4) by simp
    ultimately show ?thesis using m w by blast
  qed
  show ?thesis using A B C D by blast
qed

theorem delivered_mark_export_only_witness:
  "(rows (projr (route_frame demo_day ''A'')) ! 0) ''Delivered'' = CStr ''X''
   \<and> objs (snd (to_excel_route_day_ref 0 ''A'' demo_store)) 0 = Some demo_day
   \<and> map_of (to_dict_records demo_day ! 0) ''Delivered'' = Some (JBool True)
   \<and> (rows (the (week_state (load_week_json int_literal False
                                (Some (Some (save_week_state (empty_week_state(Monday := Some demo_day)))))
                                demo_session) Monday)) ! 0) ''Delivered'' = CBool True"
proof -
  obtain rdf where r: "route_frame demo_day ''A'' = Inr rdf"
    by (simp add: route_frame_def demo_day_def ensure_rowid_def empty_frame_def Let_def)
  note T = delivered_mark_export_only[where df=demo_day and route="''A''" and rdf=rdf
      and h=demo_store and a=0 and ws="empty_week_state(Monday := Some demo_day)" and d=Monday
      and i=0 and b=True and parse=int_literal and dflt=False and st=demo_session]
  have c: "''Delivered'' \<in> set (columns demo_day)" "0 < length (rows demo_day)"
    "(rows demo_day ! 0) ''Delivered'' = CBool True"
    by (simp_all add: demo_day_def)
  have sel: "filter (\<lambda>r. str_cell (r ''Delivery Route'') = ''A'') (rows (ensure_rowid demo_day)) ! 0
               = (rows (ensure_rowid demo_day) ! 0)"
    by (simp add: demo_day_def ensure_rowid_def empty_frame_def)
  have n: "length (rows rdf) = 1"
    using T r c(1) by (simp add: demo_day_def ensure_rowid_def empty_frame_def)
  have "(rows rdf ! 0) ''Delivered'' = delivered_mark ((rows (ensure_rowid demo_day) ! 0) ''Delivered'')"
    using T r c(1) n sel by simp
  also have "\<dots> = delivered_mark (CBool True)"
    by (simp add: demo_day_def ensure_rowid_def empty_frame_def)
  finally have a: "(rows (projr (route_frame demo_day ''A'')) ! 0) ''Delivered'' = CStr ''X''"
    using T r by simp
  have s: "objs demo_store 0 = Some demo_day" "0 < next_ref demo_store"
    by (simp_all add: demo_store_def)
  have b: "objs (snd (to_excel_route_day_ref 0 ''A'' demo_store)) 0 = Some demo_day"
    using T s by blast
  have w: "(empty_week_state(Monday := Some demo_day)) Monday = Some demo_day" by simp
  have d1: "map_of (to_dict_records demo_day ! 0) ''Delivered'' = Some (JBool True)"
    using T w c by blast
  obtain df' where "week_state (load_week_json int_literal False
                                (Some (Some (save_week_state (empty_week_state(Monday := Some demo_day)))))
                                demo_session) Monday = Some df'"
    and "(rows df' ! 0) ''Delivered'' = CBool True"
    using T w c by blast
  then have d2: "(rows (the (week_state (load_week_json int_literal False
                                (Some (Some (save_week_state (empty_week_state(Monday := Some demo_day)))))
                                demo_session) Monday)) ! 0) ''Delivered'' = CBool True"
    by simp
  show ?thesis using a b d1 d2 by blast
qed

end
